theory Spec2Isabelle
  imports Complex_Main
begin

section \<open>The live audio session of \<open>geminiService.ts\<close>\<close>

text \<open>
  The class \<open>GeminiLiveSession\<close> owns two audio contexts, a microphone stream, the
  promise of the live connection, a playback cursor \<open>nextStartTime\<close> and the set
  \<open>sources\<close> of buffer source nodes that are scheduled or playing. Its methods mutate
  these fields and call into the browser; the model passes the session record through
  every method and returns the calls made to the browser, to the transport and to the
  caller's observers as a list of effects, in program order.

  Times are JavaScript numbers, which are reals, but their sum is rounded: the addition
  of line 276 is a parameter \<open>add\<close> of the code that runs it, and nothing is assumed of
  it that is not said. The larger of two numbers is one of them and is exact. The helpers
  of \<open>audioUtils\<close> (\<open>decodeAudioData\<close>, \<open>createPcmBlob\<close>) are not part of the sources at
  hand and are parameters of the code that calls them.
\<close>

subsection \<open>Inbound messages\<close>

text \<open>
  The fields of \<open>LiveServerMessage\<close> that the session reads. Every level is optional in
  the source (\<open>message.serverContent?.modelTurn?.parts?.[0]?.inlineData?.data\<close>); an
  absent \<open>interrupted\<close> flag is falsy and is the value \<open>False\<close> here.
\<close>

record inline_data =
  data :: "string option"

record part =
  inlineData :: "inline_data option"

record model_turn =
  parts :: "part list option"

record server_content =
  modelTurn :: "model_turn option"
  interrupted :: bool
  turnComplete :: bool

record live_server_message =
  serverContent :: "server_content option"

subsection \<open>Browser objects\<close>

datatype audio_context_state = Suspended | Running | Closed

record audio_context =
  sampleRate :: nat
  ctx_state :: audio_context_state

text \<open>An \<open>AudioBuffer\<close>: its duration in seconds, and the decoded samples.\<close>

record audio_buffer =
  duration :: real
  samples :: "real list"

text \<open>
  An \<open>AudioBufferSourceNode\<close> together with the gain node it is connected to. Nodes are
  objects; \<open>node_id\<close> is the object's identity.
\<close>

record source_node =
  node_id :: nat
  buffer :: audio_buffer
  gain_value :: real

datatype decode_error = DecodeError

text \<open>The \<open>sendRealtimeInput\<close> and \<open>close\<close> members that the resolved session may have.\<close>

record live_session =
  has_sendRealtimeInput :: bool
  has_close :: bool

text \<open>
  A callback chained with \<open>then\<close> on the session promise: the send of one encoded
  frame (line 224) or the close of the session (line 305).
\<close>

datatype reaction = SendReaction string | CloseReaction

text \<open>
  The promise returned by \<open>ai.live.connect\<close>. While it is pending it holds the
  callbacks chained on it, oldest first; it is fulfilled with a session object, or with
  a value that is not one.
\<close>

datatype session_promise =
    Pending "reaction list"
  | Fulfilled "live_session option"
  | Rejected

datatype context_kind = InputContext | OutputContext

text \<open>What the session does to the world, in the order it does it.\<close>

datatype effect =
    SourceStart source_node real
  | SourceStop nat
  | ConsoleError string
  | NotifyError string
  | NotifyClose
  | NotifyMessage live_server_message
  | TransportOpen string
  | TransportSend string
  | TransportClose
  | TrackStop nat
  | GraphConnect nat
  | GraphDisconnect nat
  | ContextClose context_kind audio_context_state

subsection \<open>The session\<close>

text \<open>
  A call of \<open>handleServerMessage\<close> that is suspended at its \<open>await\<close> (line 255): the
  payload it is decoding and the message it was called with.
\<close>

record activation =
  act_audio :: string
  act_message :: live_server_message

text \<open>
  The private fields of the class, lines 139 to 145. \<open>sources\<close> is a JavaScript
  \<open>Set\<close>, which keeps insertion order: a list without repetition. A \<open>MediaStream\<close> is
  the list of its tracks, a cleanup callback is the capture graph it disconnects.
  \<open>next_node\<close> is the identity the next created node gets. \<open>pending\<close> is not a
  field of the class: it holds the calls of \<open>handleServerMessage\<close> that are suspended,
  oldest first.
\<close>

record session =
  sessionPromise :: "session_promise option"
  inputAudioContext :: "audio_context option"
  outputAudioContext :: "audio_context option"
  nextStartTime :: real
  sources :: "source_node list"
  stream :: "nat list option"
  cleanupCallbacks :: "nat list"
  next_node :: nat
  pending :: "activation list"

definition new_session :: session where
  "new_session =
     \<lparr>sessionPromise = None, inputAudioContext = None, outputAudioContext = None,
      nextStartTime = 0, sources = [], stream = None, cleanupCallbacks = [],
      next_node = 0, pending = []\<rparr>"

subsection \<open>\<open>handleServerMessage\<close>, lines 245 to 291\<close>

text \<open>
  The method is \<open>async\<close> and is called without \<open>await\<close> (line 191). A call runs at
  once up to its only \<open>await\<close>, at the decoding of line 255, and is suspended there; the
  rest of it runs when the decode settles, and other calls, or their rests, can run in
  between. So the method is two functions: what the call does at once, and what it does
  when it is resumed.
\<close>

text \<open>Line 249: the audio payload of the first part, if every level down to it exists.\<close>

definition base64Audio :: "live_server_message \<Rightarrow> string option" where
  "base64Audio message =
     (case serverContent message of
        None \<Rightarrow> None
      | Some sc \<Rightarrow>
          (case modelTurn sc of
             None \<Rightarrow> None
           | Some mt \<Rightarrow>
               (case parts mt of
                  None \<Rightarrow> None
                | Some ps \<Rightarrow>
                    (case ps of
                       [] \<Rightarrow> None
                     | p # _ \<Rightarrow>
                         (case inlineData p of
                            None \<Rightarrow> None
                          | Some d \<Rightarrow> data d)))))"

text \<open>Line 284: \<open>message.serverContent?.interrupted\<close>.\<close>

definition is_interrupted :: "live_server_message \<Rightarrow> bool" where
  "is_interrupted message =
     (case serverContent message of None \<Rightarrow> False | Some sc \<Rightarrow> interrupted sc)"

text \<open>Lines 284 to 290: stop every source, clear the set, reset the cursor.\<close>

definition handle_interruption :: "live_server_message \<Rightarrow> session \<Rightarrow> session \<times> effect list" where
  "handle_interruption message s =
     (if is_interrupted message
      then (s\<lparr>sources := [], nextStartTime := 0\<rparr>,
            map (\<lambda>src. SourceStop (node_id src)) (sources s))
      else (s, []))"

text \<open>
  The call, lines 246 to 255. Without an output context it returns. The test
  \<open>if (base64Audio)\<close> is false for an absent payload and for the empty string: then no
  \<open>await\<close> is met and the interruption is handled at once. With a payload the cursor is
  raised to the device clock, the decode is begun and the call is suspended.
  \<open>currentTime\<close> is the reading of \<open>outputAudioContext.currentTime\<close> at line 252.
\<close>

definition handleServerMessage :: "real \<Rightarrow> live_server_message \<Rightarrow> session \<Rightarrow> session \<times> effect list" where
  "handleServerMessage currentTime message s =
     (case outputAudioContext s of
        None \<Rightarrow> (s, [])
      | Some ctx \<Rightarrow>
          (case base64Audio message of
             None \<Rightarrow> handle_interruption message s
           | Some [] \<Rightarrow> handle_interruption message s
           | Some (c # cs) \<Rightarrow>
               (s\<lparr>nextStartTime := max (nextStartTime s) currentTime,
                  pending := pending s @ [\<lparr>act_audio = c # cs, act_message = message\<rparr>]\<rparr>,
                [])))"

text \<open>
  Lines 255 to 281 from the \<open>await\<close> on. A decode that fails is caught and logged. A
  buffer is given a new source behind a gain node of 1.2, started at the cursor; the
  cursor moves on by the duration and the source joins the set. Without an output context
  line 262 throws, which is caught and logged as well. Should \<open>decode\<close> throw at line 256,
  before the \<open>await\<close> is reached, the same \<open>catch\<close> runs at once: that is the call whose
  decode settles with a failure before anything else happens.
\<close>

definition handle_audio_output ::
  "(real \<Rightarrow> real \<Rightarrow> real) \<Rightarrow> (string \<Rightarrow> decode_error + audio_buffer) \<Rightarrow> activation \<Rightarrow> session
     \<Rightarrow> session \<times> effect list" where
  "handle_audio_output add decodeAudioData a s =
     (case decodeAudioData (act_audio a) of
        Inl e \<Rightarrow> (s, [ConsoleError ''Error decoding audio''])
      | Inr audioBuffer \<Rightarrow>
          (case outputAudioContext s of
             None \<Rightarrow> (s, [ConsoleError ''Error decoding audio''])
           | Some ctx \<Rightarrow>
               (let source = \<lparr>node_id = next_node s, buffer = audioBuffer, gain_value = 12 / 10\<rparr>
                in (s\<lparr>nextStartTime := add (nextStartTime s) (duration audioBuffer),
                       sources := sources s @ [source],
                       next_node := Suc (next_node s)\<rparr>,
                    [SourceStart source (nextStartTime s)]))))"

text \<open>The session without its \<open>k\<close>-th suspended call.\<close>

definition drop_activation :: "nat \<Rightarrow> session \<Rightarrow> session" where
  "drop_activation k s = s\<lparr>pending := take k (pending s) @ drop (Suc k) (pending s)\<rparr>"

text \<open>
  The decode of the \<open>k\<close>-th suspended call settles: the call is resumed and runs to its
  end, lines 255 to 290.
\<close>

definition handleServerMessage_resume ::
  "(real \<Rightarrow> real \<Rightarrow> real) \<Rightarrow> (string \<Rightarrow> decode_error + audio_buffer) \<Rightarrow> nat \<Rightarrow> session
     \<Rightarrow> session \<times> effect list" where
  "handleServerMessage_resume add decodeAudioData k s =
     (if k < length (pending s)
      then (let a = pending s ! k;
                (s1, e1) = handle_audio_output add decodeAudioData a (drop_activation k s);
                (s2, e2) = handle_interruption (act_message a) s1
            in (s2, e1 @ e2))
      else (s, []))"

text \<open>Lines 271 to 273: a source that has ended leaves the set.\<close>

definition source_ended :: "nat \<Rightarrow> session \<Rightarrow> session" where
  "source_ended n s = s\<lparr>sources := filter (\<lambda>src. node_id src \<noteq> n) (sources s)\<rparr>"

text \<open>
  What happens to the handler, one step at a time: a message arrives, with the reading
  of the device clock at that moment, or the decode of a suspended call settles. A list
  of steps is one way the calls can interleave.
\<close>

datatype step = Arrive real live_server_message | Settle nat

fun take_step ::
  "(real \<Rightarrow> real \<Rightarrow> real) \<Rightarrow> (string \<Rightarrow> decode_error + audio_buffer) \<Rightarrow> step \<Rightarrow> session
     \<Rightarrow> session \<times> effect list" where
  "take_step add decodeAudioData (Arrive t m) s = handleServerMessage t m s"
| "take_step add decodeAudioData (Settle k) s = handleServerMessage_resume add decodeAudioData k s"

fun run_schedule ::
  "(real \<Rightarrow> real \<Rightarrow> real) \<Rightarrow> (string \<Rightarrow> decode_error + audio_buffer) \<Rightarrow> step list \<Rightarrow> session
     \<Rightarrow> session \<times> effect list" where
  "run_schedule add decodeAudioData [] s = (s, [])"
| "run_schedule add decodeAudioData (x # xs) s =
     (let (s1, e1) = take_step add decodeAudioData x s;
          (s2, e2) = run_schedule add decodeAudioData xs s1
      in (s2, e1 @ e2))"

text \<open>
  The interleaving in which the calls do not overlap: the decode of every message settles
  before the next message arrives.
\<close>

fun in_turn :: "(real \<times> live_server_message) list \<Rightarrow> step list" where
  "in_turn [] = []"
| "in_turn ((t, m) # evs) = Arrive t m # Settle 0 # in_turn evs"

text \<open>The start time of every source started, in order.\<close>

fun start_times :: "effect list \<Rightarrow> real list" where
  "start_times [] = []"
| "start_times (SourceStart src t # es) = t # start_times es"
| "start_times (_ # es) = start_times es"

text \<open>The sources started, and the sources stopped, in order.\<close>

fun started :: "effect list \<Rightarrow> source_node list" where
  "started [] = []"
| "started (SourceStart src t # es) = src # started es"
| "started (_ # es) = started es"

fun stopped :: "effect list \<Rightarrow> nat list" where
  "stopped [] = []"
| "stopped (SourceStop n # es) = n # stopped es"
| "stopped (_ # es) = stopped es"

text \<open>The clock readings of the arrivals of a list of steps.\<close>

fun arrival_times :: "step list \<Rightarrow> real list" where
  "arrival_times [] = []"
| "arrival_times (Arrive t m # xs) = t # arrival_times xs"
| "arrival_times (Settle k # xs) = arrival_times xs"

text \<open>The buffer the payload of a message decodes to, if it has a payload that decodes.\<close>

definition decodes_to ::
  "(string \<Rightarrow> decode_error + audio_buffer) \<Rightarrow> live_server_message \<Rightarrow> audio_buffer option" where
  "decodes_to decodeAudioData message =
     (case base64Audio message of
        None \<Rightarrow> None
      | Some [] \<Rightarrow> None
      | Some (c # cs) \<Rightarrow>
          (case decodeAudioData (c # cs) of Inl e \<Rightarrow> None | Inr b \<Rightarrow> Some b))"


subsection \<open>The session promise\<close>

text \<open>
  What a chained callback does once the promise is fulfilled: lines 225 to 227 for a
  send, line 306 for the close. Both test the resolved value and the member first. An
  exception of the call itself is swallowed by the \<open>catch\<close> at the end of the chain.
\<close>

definition run_reaction :: "live_session option \<Rightarrow> reaction \<Rightarrow> effect list" where
  "run_reaction resolved r =
     (case resolved of
        None \<Rightarrow> []
      | Some session \<Rightarrow>
          (case r of
             SendReaction pcmBlob \<Rightarrow>
               (if has_sendRealtimeInput session then [TransportSend pcmBlob] else [])
           | CloseReaction \<Rightarrow> (if has_close session then [TransportClose] else [])))"

text \<open>
  \<open>this.sessionPromise?.then(...).catch(...)\<close>: nothing without a promise; on a pending
  promise the callback waits for the fulfilment; on a fulfilled one it runs; on a rejected
  one it never runs and the rejection is silenced.
\<close>

definition chain_on_promise :: "reaction \<Rightarrow> session \<Rightarrow> session \<times> effect list" where
  "chain_on_promise r s =
     (case sessionPromise s of
        None \<Rightarrow> (s, [])
      | Some (Pending rs) \<Rightarrow> (s\<lparr>sessionPromise := Some (Pending (rs @ [r]))\<rparr>, [])
      | Some (Fulfilled resolved) \<Rightarrow> (s, run_reaction resolved r)
      | Some Rejected \<Rightarrow> (s, []))"

text \<open>The connection settles: the waiting callbacks run in the order they were chained.\<close>

definition promise_fulfilled :: "live_session option \<Rightarrow> session \<Rightarrow> session \<times> effect list" where
  "promise_fulfilled resolved s =
     (case sessionPromise s of
        Some (Pending rs) \<Rightarrow>
          (s\<lparr>sessionPromise := Some (Fulfilled resolved)\<rparr>, concat (map (run_reaction resolved) rs))
      | _ \<Rightarrow> (s, []))"

definition promise_rejected :: "session \<Rightarrow> session \<times> effect list" where
  "promise_rejected s =
     (case sessionPromise s of
        Some (Pending rs) \<Rightarrow> (s\<lparr>sessionPromise := Some Rejected\<rparr>, [])
      | _ \<Rightarrow> (s, []))"

subsection \<open>\<open>startAudioStreaming\<close>, lines 213 to 243\<close>

text \<open>
  The guard of line 214, then the capture graph. \<open>graph_ok\<close> says that the browser calls
  inside the \<open>try\<close> succeed; when one throws, the error is logged and no cleanup callback
  is kept.
\<close>

definition startAudioStreaming :: "bool \<Rightarrow> session \<Rightarrow> session \<times> effect list" where
  "startAudioStreaming graph_ok s =
     (if inputAudioContext s = None \<or> stream s = None \<or> sessionPromise s = None then (s, [])
      else if graph_ok
      then (s\<lparr>cleanupCallbacks := cleanupCallbacks s @ [next_node s],
              next_node := Suc (next_node s)\<rparr>,
            [GraphConnect (next_node s)])
      else (s, [ConsoleError ''Audio Streaming Error'']))"

text \<open>
  Lines 220 to 231, the handler of one captured frame: the frame is encoded and its send
  is chained on the session promise.
\<close>

definition onaudioprocess :: "(real list \<Rightarrow> string) \<Rightarrow> real list \<Rightarrow> session \<Rightarrow> session \<times> effect list" where
  "onaudioprocess createPcmBlob inputData s =
     chain_on_promise (SendReaction (createPcmBlob inputData)) s"

text \<open>The frames of a capture, in order.\<close>

fun capture_frames ::
  "(real list \<Rightarrow> string) \<Rightarrow> real list list \<Rightarrow> session \<Rightarrow> session \<times> effect list" where
  "capture_frames createPcmBlob [] s = (s, [])"
| "capture_frames createPcmBlob (f # fs) s =
     (let (s1, e1) = onaudioprocess createPcmBlob f s;
          (s2, e2) = capture_frames createPcmBlob fs s1
      in (s2, e1 @ e2))"

subsection \<open>\<open>connect\<close>, lines 153 to 211\<close>

text \<open>
  What the browser answers during \<open>connect\<close>: the state a new audio context is in, or
  \<open>None\<close> when its constructor throws; whether \<open>resume\<close> succeeds; the tracks of the
  microphone stream, or \<open>None\<close> when \<open>getUserMedia\<close> is rejected.
\<close>

record browser =
  new_input_context :: "audio_context_state option"
  new_output_context :: "audio_context_state option"
  resume_input :: bool
  resume_output :: bool
  getUserMedia :: "nat list option"

datatype connect_result = Resolved | Thrown string

text \<open>
  Lines 157 to 167, the body of the first \<open>try\<close>: \<open>False\<close> when it throws. A field
  assigned before the exception keeps its new value.
\<close>

definition init_audio_contexts :: "browser \<Rightarrow> session \<Rightarrow> bool \<times> session" where
  "init_audio_contexts env s =
     (case new_input_context env of
        None \<Rightarrow> (False, s)
      | Some st_in \<Rightarrow>
          (let s1 = s\<lparr>inputAudioContext := Some \<lparr>sampleRate = 16000, ctx_state = st_in\<rparr>\<rparr> in
           case new_output_context env of
             None \<Rightarrow> (False, s1)
           | Some st_out \<Rightarrow>
               (let s2 = s1\<lparr>outputAudioContext := Some \<lparr>sampleRate = 24000, ctx_state = st_out\<rparr>\<rparr> in
                if st_in = Suspended \<and> \<not> resume_input env then (False, s2)
                else
                  (let s3 = (if st_in = Suspended
                             then s2\<lparr>inputAudioContext :=
                                      Some \<lparr>sampleRate = 16000, ctx_state = Running\<rparr>\<rparr>
                             else s2) in
                   if st_out = Suspended \<and> \<not> resume_output env then (False, s3)
                   else (True,
                         if st_out = Suspended
                         then s3\<lparr>outputAudioContext :=
                                   Some \<lparr>sampleRate = 24000, ctx_state = Running\<rparr>\<rparr>
                         else s3)))))"

text \<open>Line 208: \<open>systemInstruction || '...'\<close>; absent and empty are both falsy.\<close>

definition instruction_or_default :: "string option \<Rightarrow> string" where
  "instruction_or_default systemInstruction =
     (case systemInstruction of
        None \<Rightarrow> ''You are a helpful, rugged, and knowledgeable AI assistant for New Zealand tradies. Speak clearly and concisely about building plans, materials, and schedules.''
      | Some [] \<Rightarrow> ''You are a helpful, rugged, and knowledgeable AI assistant for New Zealand tradies. Speak clearly and concisely about building plans, materials, and schedules.''
      | Some (c # cs) \<Rightarrow> c # cs)"

text \<open>
  The method. A failure of the audio contexts is rethrown to the caller as a new error;
  a refused microphone is reported through \<open>onError\<close> and the method returns; otherwise
  the connection is opened and its promise, still pending, is kept.
\<close>

definition connect :: "browser \<Rightarrow> string option \<Rightarrow> session \<Rightarrow> connect_result \<times> session \<times> effect list" where
  "connect env systemInstruction s =
     (case init_audio_contexts env s of
        (False, s1) \<Rightarrow>
          (Thrown ''Could not initialize audio'', s1, [ConsoleError ''Audio Context Init Failed''])
      | (True, s1) \<Rightarrow>
          (case getUserMedia env of
             None \<Rightarrow>
               (Resolved, s1,
                [ConsoleError ''Mic access denied'', NotifyError ''Microphone access denied''])
           | Some tracks \<Rightarrow>
               (Resolved, s1\<lparr>stream := Some tracks, sessionPromise := Some (Pending [])\<rparr>,
                [TransportOpen (instruction_or_default systemInstruction)])))"

text \<open>Lines 194 to 201, the transport's error and close callbacks: the observers are told.\<close>

definition onerror :: "session \<Rightarrow> session \<times> effect list" where
  "onerror s = (s, [ConsoleError ''Gemini Live Error'', NotifyError ''Connection error''])"

definition onclose :: "session \<Rightarrow> session \<times> effect list" where
  "onclose s = (s, [NotifyClose])"

subsection \<open>\<open>disconnect\<close>, lines 293 to 308\<close>

text \<open>
  The browser calls of \<open>disconnect\<close> that can throw into it: \<open>t.stop()\<close> on a track, a
  cleanup callback, \<open>close()\<close> on an audio context.
\<close>

datatype browser_call = TrackStopCall nat | CleanupCall nat | ContextCloseCall context_kind

text \<open>
  One call that returns. Closing a context leaves it closed; on a context that is closed
  already, \<open>close()\<close> returns a rejected promise that nothing awaits. The effect keeps
  the state the context was in.
\<close>

definition close_context :: "audio_context option \<Rightarrow> audio_context option" where
  "close_context c = (case c of None \<Rightarrow> None | Some ctx \<Rightarrow> Some (ctx\<lparr>ctx_state := Closed\<rparr>))"

definition context_state :: "audio_context option \<Rightarrow> audio_context_state" where
  "context_state c = (case c of None \<Rightarrow> Closed | Some ctx \<Rightarrow> ctx_state ctx)"

fun perform :: "browser_call \<Rightarrow> session \<Rightarrow> session \<times> effect list" where
  "perform (TrackStopCall n) s = (s, [TrackStop n])"
| "perform (CleanupCall n) s = (s, [GraphDisconnect n])"
| "perform (ContextCloseCall InputContext) s =
     (s\<lparr>inputAudioContext := close_context (inputAudioContext s)\<rparr>,
      [ContextClose InputContext (context_state (inputAudioContext s))])"
| "perform (ContextCloseCall OutputContext) s =
     (s\<lparr>outputAudioContext := close_context (outputAudioContext s)\<rparr>,
      [ContextClose OutputContext (context_state (outputAudioContext s))])"

text \<open>
  Statements in sequence with no \<open>try\<close> around them: the first call that throws ends the
  method, and the calls after it are not made.
\<close>

fun run_calls ::
  "(browser_call \<Rightarrow> bool) \<Rightarrow> browser_call list \<Rightarrow> session
     \<Rightarrow> browser_call option \<times> session \<times> effect list" where
  "run_calls throws [] s = (None, s, [])"
| "run_calls throws (c # cs) s =
     (if throws c then (Some c, s, [])
      else (let (s1, e1) = perform c s;
                (r, s2, e2) = run_calls throws cs s1
            in (r, s2, e1 @ e2)))"

text \<open>
  Lines 295 to 302 as the calls they make, in order: every track of the stream, every
  cleanup callback, then each context that is not null. No field is set to null by
  \<open>disconnect\<close>, so the calls are the same whenever it runs.
\<close>

definition teardown_calls :: "session \<Rightarrow> browser_call list" where
  "teardown_calls s =
     map TrackStopCall (case stream s of None \<Rightarrow> [] | Some tracks \<Rightarrow> tracks)
     @ map CleanupCall (cleanupCallbacks s)
     @ (case inputAudioContext s of None \<Rightarrow> [] | Some ctx \<Rightarrow> [ContextCloseCall InputContext])
     @ (case outputAudioContext s of None \<Rightarrow> [] | Some ctx \<Rightarrow> [ContextCloseCall OutputContext])"

text \<open>
  The method: the calls above, then the close of the session chained on the promise
  (lines 305 to 307). The result is the call that threw, if one did.
\<close>

definition disconnect ::
  "(browser_call \<Rightarrow> bool) \<Rightarrow> session \<Rightarrow> browser_call option \<times> session \<times> effect list" where
  "disconnect throws s =
     (case run_calls throws (teardown_calls s) s of
        (Some c, s1, e1) \<Rightarrow> (Some c, s1, e1)
      | (None, s1, e1) \<Rightarrow>
          (let (s2, e2) = chain_on_promise CloseReaction s1 in (None, s2, e1 @ e2)))"

subsection \<open>The ways a session ends\<close>

text \<open>
  The caller, \<open>LiveInterface.tsx\<close>. On a user stop \<open>toggleSession\<close> calls \<open>disconnect\<close>
  (line 56), as the unmount effect does (line 122). When the Transport reports a close
  or an error, the session's callbacks tell the observers (lines 194 to 201), and the
  observers the caller gave (lines 96 to 104) set its own display state and call nothing
  of the session.
\<close>

datatype exit_path = UserStop | RemoteClose | TransportError

definition exit_session ::
  "(browser_call \<Rightarrow> bool) \<Rightarrow> exit_path \<Rightarrow> session \<Rightarrow> browser_call option \<times> session \<times> effect list" where
  "exit_session throws path s =
     (case path of
        UserStop \<Rightarrow> disconnect throws s
      | RemoteClose \<Rightarrow> (None, onclose s)
      | TransportError \<Rightarrow> (None, onerror s))"

subsection \<open>The schedule in the words of the specification\<close>





text \<open>A message with one audio part, and the decoder used in the examples.\<close>

definition audio_message :: "string \<Rightarrow> bool \<Rightarrow> live_server_message" where
  "audio_message b i =
     \<lparr>serverContent = Some \<lparr>modelTurn = Some \<lparr>parts = Some [\<lparr>inlineData = Some \<lparr>data = Some b\<rparr>\<rparr>]\<rparr>,
                             interrupted = i, turnComplete = False\<rparr>\<rparr>"

definition plain_message :: "bool \<Rightarrow> live_server_message" where
  "plain_message i =
     \<lparr>serverContent = Some \<lparr>modelTurn = None, interrupted = i, turnComplete = False\<rparr>\<rparr>"

definition example_decode :: "string \<Rightarrow> decode_error + audio_buffer" where
  "example_decode b =
     (if b = ''A'' then Inr \<lparr>duration = 1, samples = []\<rparr>
      else if b = ''B'' then Inr \<lparr>duration = 1 / 2, samples = []\<rparr>
      else if b = ''C'' then Inr \<lparr>duration = 2, samples = []\<rparr>
      else Inl DecodeError)"

definition streaming_session :: session where
  "streaming_session =
     new_session\<lparr>inputAudioContext := Some \<lparr>sampleRate = 16000, ctx_state = Running\<rparr>,
                 outputAudioContext := Some \<lparr>sampleRate = 24000, ctx_state = Running\<rparr>,
                 stream := Some [0],
                 sessionPromise :=
                   Some (Fulfilled (Some \<lparr>has_sendRealtimeInput = True, has_close = True\<rparr>))\<rparr>"

definition three_chunks :: "(real \<times> live_server_message) list" where
  "three_chunks =
     [(0, audio_message ''A'' False), (0, audio_message ''B'' False),
      (0, audio_message ''C'' False)]"

subsection \<open>Notions used in the statements\<close>


text \<open>The output context is created before any message can arrive (line 159 runs before
  line 183), and only a call that found it is suspended, adds a source or moves the cursor.\<close>

definition session_inv :: "session \<Rightarrow> bool" where
  "session_inv s =
     (outputAudioContext s = None \<longrightarrow> sources s = [] \<and> nextStartTime s = 0 \<and> pending s = [])"

text \<open>Line 252 on its own: the cursor raised to the device clock.\<close>

definition raise_cursor :: "real \<Rightarrow> session \<Rightarrow> session" where
  "raise_cursor t s = s\<lparr>nextStartTime := max (nextStartTime s) t\<rparr>"

text \<open>The same message with its model turn, and so its audio, taken away.\<close>

definition without_audio :: "live_server_message \<Rightarrow> live_server_message" where
  "without_audio message =
     (case serverContent message of
        None \<Rightarrow> message
      | Some sc \<Rightarrow> message\<lparr>serverContent := Some (sc\<lparr>modelTurn := None\<rparr>)\<rparr>)"

text \<open>Lines 262 to 277 on their own: a new source for the buffer, started at the cursor.\<close>

definition schedule_source :: "(real \<Rightarrow> real \<Rightarrow> real) \<Rightarrow> audio_buffer \<Rightarrow> session \<Rightarrow> session" where
  "schedule_source add b s =
     s\<lparr>nextStartTime := add (nextStartTime s) (duration b),
       sources := sources s @ [\<lparr>node_id = next_node s, buffer = b, gain_value = 12 / 10\<rparr>],
       next_node := Suc (next_node s)\<rparr>"

text \<open>What the gain node of a source passes on to the destination: every sample of the
  buffer times the gain.\<close>

definition played_samples :: "source_node \<Rightarrow> real list" where
  "played_samples src = map (\<lambda>x. gain_value src * x) (samples (buffer src))"



text \<open>A session that has scheduled one chunk of two seconds at time 0.\<close>

definition playing_session :: session where
  "playing_session =
     streaming_session
       \<lparr>nextStartTime := 2,
        sources := [\<lparr>node_id = 0, buffer = \<lparr>duration = 2, samples = []\<rparr>, gain_value = 12 / 10\<rparr>],
        next_node := 1\<rparr>"


text \<open>Two chunks that arrive at time 1, after a failed one at time 0.5.\<close>

definition failing_then_two :: "(real \<times> live_server_message) list" where
  "failing_then_two = [(1, audio_message ''A'' False), (1, audio_message ''B'' False)]"

text \<open>The encoded frames handed to the transport, in order.\<close>

fun sent :: "effect list \<Rightarrow> string list" where
  "sent [] = []"
| "sent (TransportSend b # es) = b # sent es"
| "sent (_ # es) = sent es"

text \<open>An encoder for the examples: one character for each sample, its sign.\<close>

definition example_blob :: "real list \<Rightarrow> string" where
  "example_blob inputData = map (\<lambda>x. if x < 0 then CHR ''-'' else CHR ''+'') inputData"

text \<open>A session whose connection is still being opened.\<close>

definition connecting_session :: session where
  "connecting_session = streaming_session\<lparr>sessionPromise := Some (Pending [])\<rparr>"

text \<open>A resolved session with both members.\<close>

definition open_session :: live_session where
  "open_session = \<lparr>has_sendRealtimeInput = True, has_close = True\<rparr>"

text \<open>The first \<open>try\<close> of \<open>connect\<close> throws: a constructor does, or the \<open>resume\<close> of a
  suspended context.\<close>

definition contexts_fail :: "browser \<Rightarrow> bool" where
  "contexts_fail env =
     (new_input_context env = None \<or> new_output_context env = None
      \<or> (new_input_context env = Some Suspended \<and> \<not> resume_input env)
      \<or> (new_output_context env = Some Suspended \<and> \<not> resume_output env))"

text \<open>Device acquisition fails: the audio contexts, or the microphone.\<close>

definition acquisition_fails :: "browser \<Rightarrow> bool" where
  "acquisition_fails env = (contexts_fail env \<or> getUserMedia env = None)"

text \<open>The connections opened, by their system instruction.\<close>

fun transport_opens :: "effect list \<Rightarrow> string list" where
  "transport_opens [] = []"
| "transport_opens (TransportOpen i # es) = i # transport_opens es"
| "transport_opens (_ # es) = transport_opens es"

text \<open>The errors handed to the \<open>onError\<close> observer.\<close>

fun notified_errors :: "effect list \<Rightarrow> string list" where
  "notified_errors [] = []"
| "notified_errors (NotifyError e # es) = e # notified_errors es"
| "notified_errors (_ # es) = notified_errors es"

text \<open>The errors the caller of \<open>connect\<close> gets to see: the one thrown at it, and those
  handed to its observer.\<close>

definition error_notifications :: "connect_result \<Rightarrow> effect list \<Rightarrow> nat" where
  "error_notifications r es =
     (case r of Thrown e \<Rightarrow> 1 | Resolved \<Rightarrow> 0) + length (notified_errors es)"

text \<open>A browser that refuses the microphone.\<close>

definition refusing_browser :: browser where
  "refusing_browser =
     \<lparr>new_input_context = Some Running, new_output_context = Some Suspended,
      resume_input = True, resume_output = True, getUserMedia = None\<rparr>"

text \<open>A browser in which the output context cannot be created.\<close>

definition silent_browser :: browser where
  "silent_browser =
     \<lparr>new_input_context = Some Running, new_output_context = None,
      resume_input = True, resume_output = True, getUserMedia = Some [0]\<rparr>"

text \<open>All cleanup steps in the words of the specification: every track stopped, the capture
  graph disconnected, both audio contexts released, the Transport closed if there is a
  handle. Each context is reported with the state it was in.\<close>

definition teardown_effects :: "session \<Rightarrow> effect list" where
  "teardown_effects s =
     map TrackStop (case stream s of None \<Rightarrow> [] | Some tracks \<Rightarrow> tracks)
     @ map GraphDisconnect (cleanupCallbacks s)
     @ (case inputAudioContext s of
          None \<Rightarrow> []
        | Some ctx \<Rightarrow> [ContextClose InputContext (ctx_state ctx)])
     @ (case outputAudioContext s of
          None \<Rightarrow> []
        | Some ctx \<Rightarrow> [ContextClose OutputContext (ctx_state ctx)])
     @ snd (chain_on_promise CloseReaction s)"

text \<open>The same steps when the contexts have been closed before.\<close>

definition repeated_effects :: "session \<Rightarrow> effect list" where
  "repeated_effects s =
     map TrackStop (case stream s of None \<Rightarrow> [] | Some tracks \<Rightarrow> tracks)
     @ map GraphDisconnect (cleanupCallbacks s)
     @ (case inputAudioContext s of None \<Rightarrow> [] | Some ctx \<Rightarrow> [ContextClose InputContext Closed])
     @ (case outputAudioContext s of None \<Rightarrow> [] | Some ctx \<Rightarrow> [ContextClose OutputContext Closed])
     @ snd (chain_on_promise CloseReaction s)"

text \<open>The session after both \<open>close()\<close> calls.\<close>

definition contexts_closed :: "session \<Rightarrow> session" where
  "contexts_closed s =
     s\<lparr>inputAudioContext := close_context (inputAudioContext s),
       outputAudioContext := close_context (outputAudioContext s)\<rparr>"

text \<open>A browser in which no call throws.\<close>

definition never :: "browser_call \<Rightarrow> bool" where
  "never c = False"

text \<open>A browser in which the cleanup callback of graph 0 throws.\<close>

definition cleanup_throws :: "browser_call \<Rightarrow> bool" where
  "cleanup_throws c = (c = CleanupCall 0)"

text \<open>A streaming session whose capture graph is connected.\<close>

definition capturing_session :: session where
  "capturing_session = streaming_session\<lparr>cleanupCallbacks := [0], next_node := 1\<rparr>"

text \<open>One message whose decode settles before anything else happens.\<close>

definition turn ::
  "(real \<Rightarrow> real \<Rightarrow> real) \<Rightarrow> (string \<Rightarrow> decode_error + audio_buffer) \<Rightarrow> real \<Rightarrow> live_server_message
     \<Rightarrow> session \<Rightarrow> session \<times> effect list" where
  "turn add dec t m s = run_schedule add dec [Arrive t m, Settle 0] s"


text \<open>No suspended call belongs to a message with the interruption flag.\<close>

definition quiet_pending :: "session \<Rightarrow> bool" where
  "quiet_pending s = list_all (\<lambda>a. \<not> is_interrupted (act_message a)) (pending s)"


text \<open>Three chunks of 1.0, 0.5 and 2.0 seconds arrive at time 0, and the decode of the second
  settles first.\<close>

definition overlapped_chunks :: "step list" where
  "overlapped_chunks =
     [Arrive 0 (audio_message ''A'' False), Arrive 0 (audio_message ''B'' False),
      Arrive 0 (audio_message ''C'' False), Settle 1, Settle 0, Settle 0]"

text \<open>A step that does not interrupt: the arrival, at a clock reading that is not negative, of
  a message without the interruption flag, or any settling.\<close>

fun unbroken :: "step \<Rightarrow> bool" where
  "unbroken (Arrive t m) = (0 \<le> t \<and> \<not> is_interrupted m)"
| "unbroken (Settle k) = True"

text \<open>The playing session after an interruption.\<close>

definition reset_session :: session where
  "reset_session = playing_session\<lparr>sources := [], nextStartTime := 0\<rparr>"

text \<open>The playing session with a suspended call whose message has audio and the interruption
  flag.\<close>

definition suspended_session :: session where
  "suspended_session =
     playing_session\<lparr>pending := [\<lparr>act_audio = ''A'', act_message = audio_message ''A'' True\<rparr>]\<rparr>"

text \<open>A chunk of two seconds plays from time 0. At 0.5 a second chunk arrives and, while it is
  being decoded, the interruption; then its decode settles, and a third chunk arrives
  and is decoded.\<close>

definition barge_in_overlap :: "step list" where
  "barge_in_overlap =
     [Arrive 0 (audio_message ''C'' False), Settle 0,
      Arrive (1 / 2) (audio_message ''A'' False), Arrive (1 / 2) (plain_message True), Settle 0,
      Arrive (1 / 2) (audio_message ''B'' False), Settle 0]"

text \<open>After an interruption: a message with nothing in it, then a chunk.\<close>

definition after_barge_in :: "step list" where
  "after_barge_in =
     [Arrive (1 / 2) (plain_message False), Arrive (3 / 4) (audio_message ''A'' False), Settle 0]"

text \<open>Two chunks arrive, and the decode of the second settles first.\<close>

definition second_settles_first :: "step list" where
  "second_settles_first =
     [Arrive 0 (audio_message ''A'' False), Arrive 0 (audio_message ''B'' False),
      Settle 1, Settle 0]"

text \<open>A chunk is played, the interruption arrives at 0.5, then a second chunk arrives and is
  decoded.\<close>

definition barge_in_between :: "step list" where
  "barge_in_between =
     [Arrive 0 (audio_message ''C'' False), Settle 0]
     @ Arrive (1 / 2) (plain_message True)
     # [Arrive (1 / 2) (audio_message ''A'' False), Settle 0]"

text \<open>
  Two chunks arrive at time 0, the first on a message that is flagged as interrupted;
  the decode of the second settles first.
\<close>

definition flagged_chunk_overtaken :: "step list" where
  "flagged_chunk_overtaken =
     [Arrive 0 (audio_message ''A'' True), Arrive 0 (audio_message ''B'' False),
      Settle 1, Settle 0]"

text \<open>
  The playing session with two suspended calls: the first carries a payload that does not
  decode, the second a chunk of one second.
\<close>

definition failed_pending_session :: session where
  "failed_pending_session =
     playing_session
       \<lparr>pending := [\<lparr>act_audio = ''X'', act_message = audio_message ''X'' False\<rparr>,
                    \<lparr>act_audio = ''A'', act_message = audio_message ''A'' False\<rparr>]\<rparr>"

text \<open>
  A payload that does not decode arrives at time 0 and fails at once; then two chunks
  arrive, and the decode of the second settles first.
\<close>

definition failure_overlapped :: "step list" where
  "failure_overlapped =
     [Arrive 0 (audio_message ''X'' False), Settle 0, Arrive 0 (audio_message ''A'' False),
      Arrive 0 (audio_message ''B'' False), Settle 1, Settle 0]"

section \<open>Outbound frames\<close>

lemma sent_append: "sent (xs @ ys) = sent xs @ sent ys"
  by (induction xs rule: sent.induct) auto

lemma capture_fulfilled:
  assumes "sessionPromise s = Some (Fulfilled resolved)"
  shows "capture_frames enc fs s =
           (s, concat (map (\<lambda>f. run_reaction resolved (SendReaction (enc f))) fs))"
  using assms
  by (induction fs) (simp_all add: onaudioprocess_def chain_on_promise_def)

lemma capture_dropped:
  assumes "sessionPromise s = None \<or> sessionPromise s = Some Rejected"
  shows "capture_frames enc fs s = (s, [])"
  using assms
  by (induction fs) (auto simp: onaudioprocess_def chain_on_promise_def)

lemma capture_pending:
  assumes "sessionPromise s = Some (Pending rs)"
  shows "capture_frames enc fs s =
           (s\<lparr>sessionPromise := Some (Pending (rs @ map (\<lambda>f. SendReaction (enc f)) fs))\<rparr>, [])"
  using assms
proof (induction fs arbitrary: s rs)
  case Nil
  then show ?case by simp
next
  case (Cons f fs)
  let ?s1 = "s\<lparr>sessionPromise := Some (Pending (rs @ [SendReaction (enc f)]))\<rparr>"
  have step: "onaudioprocess enc f s = (?s1, [])"
    using Cons.prems by (simp add: onaudioprocess_def chain_on_promise_def)
  have p1: "sessionPromise ?s1 = Some (Pending (rs @ [SendReaction (enc f)]))" by simp
  show ?case
    by (simp add: step Cons.IH [OF p1])
qed

lemma sent_sends:
  "has_sendRealtimeInput sess \<Longrightarrow>
   sent (concat (map (\<lambda>f. run_reaction (Some sess) (SendReaction (enc f))) fs)) = map enc fs"
  by (induction fs) (simp_all add: run_reaction_def)

lemma sent_reactions:
  "has_sendRealtimeInput sess \<Longrightarrow>
   sent (concat (map (run_reaction (Some sess)) (map (\<lambda>f. SendReaction (enc f)) fs))) = map enc fs"
  by (induction fs) (simp_all add: run_reaction_def)

text \<open>
  Claim C6, as the code has it. Every captured frame chains one send on the session
  promise. On a connection that is open each frame is sent once, in capture order, and
  the session is unchanged. Without a promise, or with a rejected one, every frame is
  dropped with no effect and no error. While the promise is pending nothing is sent and
  nothing is dropped: the sends wait on the promise and all happen, once each and in
  capture order, when it is fulfilled, or never when it is rejected.
\<close>

theorem capture_sends:
  "(sessionPromise s = Some (Fulfilled (Some sess)) \<and> has_sendRealtimeInput sess \<longrightarrow>
      fst (capture_frames enc fs s) = s \<and> sent (snd (capture_frames enc fs s)) = map enc fs)
   \<and> (sessionPromise s = None \<or> sessionPromise s = Some Rejected \<longrightarrow>
      capture_frames enc fs s = (s, []))
   \<and> (sessionPromise s = Some (Pending []) \<longrightarrow>
      snd (capture_frames enc fs s) = []
      \<and> (has_sendRealtimeInput sess \<longrightarrow>
           sent (snd (promise_fulfilled (Some sess) (fst (capture_frames enc fs s)))) = map enc fs)
      \<and> snd (promise_rejected (fst (capture_frames enc fs s))) = [])"
proof (intro conjI impI)
  assume a: "sessionPromise s = Some (Fulfilled (Some sess)) \<and> has_sendRealtimeInput sess"
  then show "fst (capture_frames enc fs s) = s"
    by (simp add: capture_fulfilled)
  from a show "sent (snd (capture_frames enc fs s)) = map enc fs"
    by (simp add: capture_fulfilled sent_sends)
next
  assume "sessionPromise s = None \<or> sessionPromise s = Some Rejected"
  then show "capture_frames enc fs s = (s, [])" by (rule capture_dropped)
next
  assume p: "sessionPromise s = Some (Pending [])"
  show "snd (capture_frames enc fs s) = []"
    by (simp add: capture_pending [OF p])
  show "snd (promise_rejected (fst (capture_frames enc fs s))) = []"
    by (simp add: capture_pending [OF p] promise_rejected_def)
  assume "has_sendRealtimeInput sess"
  then show "sent (snd (promise_fulfilled (Some sess) (fst (capture_frames enc fs s)))) = map enc fs"
    using sent_reactions [of sess enc fs]
    by (simp add: capture_pending [OF p] promise_fulfilled_def comp_def)
qed

theorem capture_sends_witness:
  "sessionPromise connecting_session = Some (Pending []) \<and> has_sendRealtimeInput open_session
   \<and> sessionPromise streaming_session = Some (Fulfilled (Some open_session))
   \<and> sent (snd (capture_frames example_blob [[1 / 2], [- 1]] streaming_session)) = [''+'', ''-'']
   \<and> snd (capture_frames example_blob [[1 / 2], [- 1]] connecting_session) = []
   \<and> sent (snd (promise_fulfilled (Some open_session)
        (fst (capture_frames example_blob [[1 / 2], [- 1]] connecting_session)))) = [''+'', ''-'']"
proof -
  have p: "sessionPromise connecting_session = Some (Pending [])"
    by (simp add: connecting_session_def)
  have h: "has_sendRealtimeInput open_session"
    by (simp add: open_session_def)
  have f: "sessionPromise streaming_session = Some (Fulfilled (Some open_session))"
    by (simp add: streaming_session_def new_session_def open_session_def)
  have e: "map example_blob [[1 / 2], [- 1]] = [''+'', ''-'']"
    by (simp add: example_blob_def)
  show ?thesis
    using capture_sends [of streaming_session open_session example_blob "[[1 / 2], [- 1]]"]
      capture_sends [of connecting_session open_session example_blob "[[1 / 2], [- 1]]"]
      p h f e
    by simp
qed

text \<open>
  A frame captured before the connection is ready is not discarded: it is sent when the
  promise is fulfilled.
\<close>

theorem pending_frame_sent:
  "snd (onaudioprocess example_blob [1 / 2] connecting_session) = []
   \<and> snd (promise_fulfilled (Some open_session)
        (fst (onaudioprocess example_blob [1 / 2] connecting_session))) = [TransportSend ''+'']"
  by (simp add: onaudioprocess_def chain_on_promise_def promise_fulfilled_def run_reaction_def
      connecting_session_def streaming_session_def new_session_def example_blob_def
      open_session_def)

section \<open>Device acquisition\<close>

lemma init_result: "fst (init_audio_contexts env s) = (\<not> contexts_fail env)"
  by (simp add: init_audio_contexts_def contexts_fail_def Let_def split: option.splits)

lemma init_keeps:
  "sessionPromise (snd (init_audio_contexts env s)) = sessionPromise s"
  "stream (snd (init_audio_contexts env s)) = stream s"
  by (simp_all add: init_audio_contexts_def Let_def split: option.splits)

lemma connect_contexts_fail:
  assumes "contexts_fail env"
  shows "connect env i s =
           (Thrown ''Could not initialize audio'', snd (init_audio_contexts env s),
            [ConsoleError ''Audio Context Init Failed''])"
proof -
  have "fst (init_audio_contexts env s) = False" using assms by (simp add: init_result)
  then show ?thesis
    by (cases "init_audio_contexts env s") (simp add: connect_def)
qed

lemma connect_microphone_refused:
  assumes "\<not> contexts_fail env" and "getUserMedia env = None"
  shows "connect env i s =
           (Resolved, snd (init_audio_contexts env s),
            [ConsoleError ''Mic access denied'', NotifyError ''Microphone access denied''])"
proof -
  have "fst (init_audio_contexts env s) = True" using assms by (simp add: init_result)
  then show ?thesis
    using assms(2) by (cases "init_audio_contexts env s") (simp add: connect_def)
qed

text \<open>
  Claim C7. When the audio contexts or the microphone cannot be had, \<open>connect\<close> opens no
  connection and keeps no session promise or stream, and the caller gets exactly one
  error: thrown at it when the audio contexts fail, handed to \<open>onError\<close> when the
  microphone is refused.
\<close>

theorem acquisition_failure:
  assumes "acquisition_fails env"
  shows "transport_opens (snd (snd (connect env i s))) = []
       \<and> sessionPromise (fst (snd (connect env i s))) = sessionPromise s
       \<and> stream (fst (snd (connect env i s))) = stream s
       \<and> error_notifications (fst (connect env i s)) (snd (snd (connect env i s))) = 1
       \<and> (contexts_fail env \<longrightarrow>
            fst (connect env i s) = Thrown ''Could not initialize audio''
            \<and> notified_errors (snd (snd (connect env i s))) = [])
       \<and> (\<not> contexts_fail env \<longrightarrow>
            fst (connect env i s) = Resolved
            \<and> notified_errors (snd (snd (connect env i s))) = [''Microphone access denied''])"
proof (cases "contexts_fail env")
  case True
  show ?thesis
    by (simp add: connect_contexts_fail [OF True] init_keeps error_notifications_def True)
next
  case False
  then have mic: "getUserMedia env = None"
    using assms by (simp add: acquisition_fails_def)
  show ?thesis
    by (simp add: connect_microphone_refused [OF False mic] init_keeps error_notifications_def
        False)
qed

theorem acquisition_failure_witness:
  "acquisition_fails refusing_browser \<and> acquisition_fails silent_browser
   \<and> connect refusing_browser None new_session =
       (Resolved,
        new_session\<lparr>inputAudioContext := Some \<lparr>sampleRate = 16000, ctx_state = Running\<rparr>,
                    outputAudioContext := Some \<lparr>sampleRate = 24000, ctx_state = Running\<rparr>\<rparr>,
        [ConsoleError ''Mic access denied'', NotifyError ''Microphone access denied''])
   \<and> error_notifications (fst (connect refusing_browser None new_session))
        (snd (snd (connect refusing_browser None new_session))) = 1
   \<and> fst (connect silent_browser None new_session) = Thrown ''Could not initialize audio''
   \<and> transport_opens (snd (snd (connect silent_browser None new_session))) = []"
proof -
  have a: "acquisition_fails refusing_browser"
    by (simp add: acquisition_fails_def refusing_browser_def)
  have b: "acquisition_fails silent_browser"
    by (simp add: acquisition_fails_def contexts_fail_def silent_browser_def)
  have c: "contexts_fail silent_browser"
    by (simp add: contexts_fail_def silent_browser_def)
  have e: "connect refusing_browser None new_session =
       (Resolved,
        new_session\<lparr>inputAudioContext := Some \<lparr>sampleRate = 16000, ctx_state = Running\<rparr>,
                    outputAudioContext := Some \<lparr>sampleRate = 24000, ctx_state = Running\<rparr>\<rparr>,
        [ConsoleError ''Mic access denied'', NotifyError ''Microphone access denied''])"
    by (simp add: connect_def init_audio_contexts_def refusing_browser_def new_session_def)
  show ?thesis
    using acquisition_failure [OF a, of None new_session]
      acquisition_failure [OF b, of None new_session] a b c e
    by simp
qed

section \<open>Teardown\<close>

lemma run_calls_append:
  "run_calls throws (xs @ ys) s =
     (case run_calls throws xs s of
        (Some c, s1, e1) \<Rightarrow> (Some c, s1, e1)
      | (None, s1, e1) \<Rightarrow>
          (fst (run_calls throws ys s1), fst (snd (run_calls throws ys s1)),
           e1 @ snd (snd (run_calls throws ys s1))))"
proof (induction xs arbitrary: s)
  case Nil
  then show ?case by simp
next
  case (Cons x xs)
  show ?case
  proof (cases "throws x")
    case True
    then show ?thesis by simp
  next
    case False
    obtain s1 e1 where p: "perform x s = (s1, e1)" by (cases "perform x s")
    obtain r s2 e2 where q: "run_calls throws xs s1 = (r, s2, e2)"
      by (cases "run_calls throws xs s1")
    show ?thesis
      using False by (cases r) (simp_all add: p q Cons.IH [of s1] split_beta)
  qed
qed

lemma run_track_calls:
  "\<forall>n \<in> set ns. \<not> throws (TrackStopCall n) \<Longrightarrow>
   run_calls throws (map TrackStopCall ns) s = (None, s, map TrackStop ns)"
  by (induction ns) simp_all

lemma run_cleanup_calls:
  "\<forall>n \<in> set ns. \<not> throws (CleanupCall n) \<Longrightarrow>
   run_calls throws (map CleanupCall ns) s = (None, s, map GraphDisconnect ns)"
  by (induction ns) simp_all

lemma close_absent [simp]:
  "inputAudioContext s = None \<Longrightarrow> s\<lparr>inputAudioContext := None\<rparr> = s"
  "outputAudioContext s = None \<Longrightarrow> s\<lparr>outputAudioContext := None\<rparr> = s"
  by simp_all

lemma run_context_calls:
  assumes "\<not> throws (ContextCloseCall InputContext)" and "\<not> throws (ContextCloseCall OutputContext)"
  shows "run_calls throws
           ((case inputAudioContext s of None \<Rightarrow> [] | Some ctx \<Rightarrow> [ContextCloseCall InputContext])
            @ (case outputAudioContext s of None \<Rightarrow> [] | Some ctx \<Rightarrow> [ContextCloseCall OutputContext])) s =
         (None, contexts_closed s,
          (case inputAudioContext s of
             None \<Rightarrow> []
           | Some ctx \<Rightarrow> [ContextClose InputContext (ctx_state ctx)])
          @ (case outputAudioContext s of
               None \<Rightarrow> []
             | Some ctx \<Rightarrow> [ContextClose OutputContext (ctx_state ctx)]))"
  using assms
  by (cases "inputAudioContext s"; cases "outputAudioContext s")
    (simp_all add: contexts_closed_def close_context_def context_state_def)

lemma run_teardown_calls:
  assumes "\<forall>c \<in> set (teardown_calls s). \<not> throws c"
  shows "run_calls throws (teardown_calls s) s =
           (None, contexts_closed s,
            map TrackStop (case stream s of None \<Rightarrow> [] | Some tracks \<Rightarrow> tracks)
            @ map GraphDisconnect (cleanupCallbacks s)
            @ (case inputAudioContext s of
                 None \<Rightarrow> []
               | Some ctx \<Rightarrow> [ContextClose InputContext (ctx_state ctx)])
            @ (case outputAudioContext s of
                 None \<Rightarrow> []
               | Some ctx \<Rightarrow> [ContextClose OutputContext (ctx_state ctx)]))"
proof -
  let ?ts = "case stream s of None \<Rightarrow> [] | Some tracks \<Rightarrow> tracks"
  let ?cc = "(case inputAudioContext s of None \<Rightarrow> [] | Some ctx \<Rightarrow> [ContextCloseCall InputContext])
            @ (case outputAudioContext s of None \<Rightarrow> [] | Some ctx \<Rightarrow> [ContextCloseCall OutputContext])"
  have calls: "teardown_calls s = map TrackStopCall ?ts @ map CleanupCall (cleanupCallbacks s) @ ?cc"
    by (simp add: teardown_calls_def)
  have t: "\<forall>n \<in> set ?ts. \<not> throws (TrackStopCall n)"
    using assms by (auto simp: teardown_calls_def)
  have c: "\<forall>n \<in> set (cleanupCallbacks s). \<not> throws (CleanupCall n)"
    using assms by (auto simp: teardown_calls_def)
  have x: "run_calls throws ?cc s =
         (None, contexts_closed s,
          (case inputAudioContext s of
             None \<Rightarrow> []
           | Some ctx \<Rightarrow> [ContextClose InputContext (ctx_state ctx)])
          @ (case outputAudioContext s of
               None \<Rightarrow> []
             | Some ctx \<Rightarrow> [ContextClose OutputContext (ctx_state ctx)]))"
  proof (cases "inputAudioContext s")
    case None
    show ?thesis
    proof (cases "outputAudioContext s")
      case None
      then show ?thesis
        using \<open>inputAudioContext s = None\<close>
        by (simp add: contexts_closed_def close_context_def)
    next
      case (Some co)
      then have "\<not> throws (ContextCloseCall OutputContext)"
        using assms by (simp add: teardown_calls_def)
      then show ?thesis
        using Some None
        by (simp add: contexts_closed_def close_context_def context_state_def)
    qed
  next
    case (Some ci)
    then have i: "\<not> throws (ContextCloseCall InputContext)"
      using assms by (simp add: teardown_calls_def)
    show ?thesis
    proof (cases "outputAudioContext s")
      case None
      then show ?thesis
        using Some i
        by (simp add: contexts_closed_def close_context_def context_state_def)
    next
      case (Some co)
      then have "\<not> throws (ContextCloseCall OutputContext)"
        using assms by (simp add: teardown_calls_def)
      then show ?thesis
        using Some \<open>inputAudioContext s = Some ci\<close> i
        by (simp add: contexts_closed_def close_context_def context_state_def)
    qed
  qed
  have y: "run_calls throws (map CleanupCall (cleanupCallbacks s) @ ?cc) s =
         (None, contexts_closed s,
          map GraphDisconnect (cleanupCallbacks s)
          @ (case inputAudioContext s of
               None \<Rightarrow> []
             | Some ctx \<Rightarrow> [ContextClose InputContext (ctx_state ctx)])
          @ (case outputAudioContext s of
               None \<Rightarrow> []
             | Some ctx \<Rightarrow> [ContextClose OutputContext (ctx_state ctx)]))"
    by (subst run_calls_append) (simp add: run_cleanup_calls [OF c] x)
  show ?thesis
    unfolding calls
    by (subst run_calls_append) (simp add: run_track_calls [OF t] y)
qed

lemma chain_closed [simp]:
  "chain_on_promise r (contexts_closed s) =
     (contexts_closed (fst (chain_on_promise r s)), snd (chain_on_promise r s))"
  by (simp add: chain_on_promise_def contexts_closed_def
      split: option.splits session_promise.splits)

lemma disconnect_clean:
  assumes "\<forall>c \<in> set (teardown_calls s). \<not> throws c"
  shows "disconnect throws s =
           (None, contexts_closed (fst (chain_on_promise CloseReaction s)), teardown_effects s)"
  by (simp add: disconnect_def run_teardown_calls [OF assms] teardown_effects_def split_beta)

lemma run_calls_thrown:
  assumes "throws c"
  shows "fst (run_calls throws (xs @ c # ys) s) \<noteq> None
       \<and> snd (run_calls throws (xs @ c # ys) s) = snd (run_calls throws xs s)"
proof -
  obtain r s1 e1 where q: "run_calls throws xs s = (r, s1, e1)"
    by (cases "run_calls throws xs s")
  show ?thesis
    using assms by (cases r) (simp_all add: run_calls_append q)
qed

lemma run_calls_promise:
  "sessionPromise (fst (snd (run_calls throws cs s))) = sessionPromise s"
proof (induction cs arbitrary: s)
  case Nil
  then show ?case by simp
next
  case (Cons c cs)
  have p: "sessionPromise (fst (perform c s)) = sessionPromise s"
    by (induction c s rule: perform.induct) simp_all
  show ?case
    using Cons.IH [of "fst (perform c s)"] p by (simp add: split_beta)
qed

lemma disconnect_thrown:
  assumes "teardown_calls s = xs @ c # ys" and "throws c"
  shows "fst (disconnect throws s) \<noteq> None"
    and "snd (snd (disconnect throws s)) = snd (snd (run_calls throws xs s))"
    and "sessionPromise (fst (snd (disconnect throws s))) = sessionPromise s"
proof -
  obtain r s1 e1 where q: "run_calls throws (teardown_calls s) s = (r, s1, e1)"
    by (cases "run_calls throws (teardown_calls s) s")
  have r: "r \<noteq> None" and e: "(s1, e1) = snd (run_calls throws xs s)"
    using run_calls_thrown [where throws = throws and c = c, OF assms(2), of xs ys s] q assms(1)
    by simp_all
  then obtain c' where c': "r = Some c'" by auto
  have d: "disconnect throws s = (Some c', s1, e1)"
    by (simp add: disconnect_def q c')
  show "fst (disconnect throws s) \<noteq> None" by (simp add: d)
  show "snd (snd (disconnect throws s)) = snd (snd (run_calls throws xs s))"
    using e by (simp add: d)
  have "s1 = fst (snd (run_calls throws xs s))" using e by (metis fst_conv)
  then show "sessionPromise (fst (snd (disconnect throws s))) = sessionPromise s"
    by (simp add: d run_calls_promise)
qed

lemma chain_fields [simp]:
  "stream (fst (chain_on_promise r s)) = stream s"
  "cleanupCallbacks (fst (chain_on_promise r s)) = cleanupCallbacks s"
  "inputAudioContext (fst (chain_on_promise r s)) = inputAudioContext s"
  "outputAudioContext (fst (chain_on_promise r s)) = outputAudioContext s"
  by (simp_all add: chain_on_promise_def split: option.splits session_promise.splits)

lemma chain_again:
  "snd (chain_on_promise r (fst (chain_on_promise r s))) = snd (chain_on_promise r s)"
  by (simp add: chain_on_promise_def split: option.splits session_promise.splits)

lemma chain_twice_pending:
  "sessionPromise s = Some (Pending rs) \<Longrightarrow>
   sessionPromise (fst (chain_on_promise r (fst (chain_on_promise r s)))) =
     Some (Pending (rs @ [r, r]))"
  by (simp add: chain_on_promise_def)

lemma closed_fields [simp]:
  "stream (contexts_closed s) = stream s"
  "cleanupCallbacks (contexts_closed s) = cleanupCallbacks s"
  "sessionPromise (contexts_closed s) = sessionPromise s"
  "inputAudioContext (contexts_closed s) = close_context (inputAudioContext s)"
  "outputAudioContext (contexts_closed s) = close_context (outputAudioContext s)"
  by (simp_all add: contexts_closed_def)

lemma teardown_calls_closed: "teardown_calls (contexts_closed s) = teardown_calls s"
  by (simp add: teardown_calls_def close_context_def split: option.splits)

lemma teardown_calls_chain: "teardown_calls (fst (chain_on_promise r s)) = teardown_calls s"
  by (simp add: teardown_calls_def)

lemma teardown_effects_closed:
  "teardown_effects (contexts_closed s) = repeated_effects s"
  by (simp add: teardown_effects_def repeated_effects_def close_context_def
      split: option.splits)

lemma repeated_effects_chain:
  "repeated_effects (fst (chain_on_promise CloseReaction s)) = repeated_effects s"
  by (simp add: repeated_effects_def chain_again)

lemmas teardown_defs =
  disconnect_def teardown_calls_def chain_on_promise_def run_reaction_def close_context_def
  context_state_def streaming_session_def new_session_def capturing_session_def
  connecting_session_def never_def cleanup_throws_def

text \<open>
  Claim C4, as the code has it. When no browser call throws, two invocations of
  \<open>disconnect\<close> in a row both return without error, but nothing latches the first: the
  second makes every call again. It stops the tracks and runs the cleanup callbacks
  again, calls \<open>close()\<close> on each audio context, which is closed by then, and chains a
  second close of the Transport on the session promise.
\<close>

theorem disconnect_twice:
  assumes "\<forall>c \<in> set (teardown_calls s). \<not> throws c"
  shows "fst (disconnect throws s) = None
       \<and> snd (snd (disconnect throws s)) = teardown_effects s
       \<and> fst (disconnect throws (fst (snd (disconnect throws s)))) = None
       \<and> snd (snd (disconnect throws (fst (snd (disconnect throws s))))) = repeated_effects s
       \<and> (sessionPromise s = Some (Pending rs) \<longrightarrow>
            sessionPromise (fst (snd (disconnect throws (fst (snd (disconnect throws s)))))) =
              Some (Pending (rs @ [CloseReaction, CloseReaction])))"
proof -
  let ?s1 = "contexts_closed (fst (chain_on_promise CloseReaction s))"
  have first: "disconnect throws s = (None, ?s1, teardown_effects s)"
    using disconnect_clean [OF assms] .
  have calls: "\<forall>c \<in> set (teardown_calls ?s1). \<not> throws c"
    using assms by (simp add: teardown_calls_closed teardown_calls_chain)
  have second: "disconnect throws ?s1 =
      (None, contexts_closed (fst (chain_on_promise CloseReaction ?s1)), teardown_effects ?s1)"
    using disconnect_clean [OF calls] .
  have e2: "teardown_effects ?s1 = repeated_effects s"
    by (simp only: teardown_effects_closed repeated_effects_chain)
  have p: "sessionPromise s = Some (Pending rs) \<Longrightarrow>
      sessionPromise (contexts_closed (fst (chain_on_promise CloseReaction ?s1))) =
        Some (Pending (rs @ [CloseReaction, CloseReaction]))"
    by (simp add: chain_twice_pending)
  show ?thesis
    using p by (simp add: first second e2)
qed

theorem disconnect_twice_witness:
  "list_all (\<lambda>c. \<not> never c) (teardown_calls connecting_session)
   \<and> sessionPromise connecting_session = Some (Pending [])
   \<and> fst (disconnect never connecting_session) = None
   \<and> snd (snd (disconnect never connecting_session)) =
       [TrackStop 0, ContextClose InputContext Running, ContextClose OutputContext Running]
   \<and> fst (disconnect never (fst (snd (disconnect never connecting_session)))) = None
   \<and> snd (snd (disconnect never (fst (snd (disconnect never connecting_session))))) =
       [TrackStop 0, ContextClose InputContext Closed, ContextClose OutputContext Closed]
   \<and> sessionPromise (fst (snd (disconnect never (fst (snd (disconnect never connecting_session))))))
       = Some (Pending [CloseReaction, CloseReaction])"
proof -
  have a: "\<forall>c \<in> set (teardown_calls connecting_session). \<not> never c"
    by (simp add: never_def)
  have p: "sessionPromise connecting_session = Some (Pending [])"
    by (simp add: connecting_session_def)
  have e1: "teardown_effects connecting_session =
       [TrackStop 0, ContextClose InputContext Running, ContextClose OutputContext Running]"
    by (simp add: teardown_effects_def teardown_defs)
  have e2: "repeated_effects connecting_session =
       [TrackStop 0, ContextClose InputContext Closed, ContextClose OutputContext Closed]"
    by (simp add: repeated_effects_def teardown_defs)
  show ?thesis
    using disconnect_twice [OF a, of "[]"] a p e1 e2
    by (simp add: list_all_iff)
qed

text \<open>
  On a streaming session the second invocation closes both closed contexts and the
  Transport once more.
\<close>

theorem second_disconnect_closes_again:
  "snd (snd (disconnect never (fst (snd (disconnect never streaming_session))))) =
     [TrackStop 0, ContextClose InputContext Closed, ContextClose OutputContext Closed,
      TransportClose]"
  by (simp add: teardown_defs)

section \<open>The handler, case by case\<close>

lemmas example_defs =
  streaming_session_def new_session_def playing_session_def audio_message_def plain_message_def
  example_decode_def base64Audio_def is_interrupted_def

lemma call_without_context:
  "outputAudioContext s = None \<Longrightarrow> handleServerMessage t m s = (s, [])"
  by (simp add: handleServerMessage_def)

lemma call_silent:
  "outputAudioContext s = Some ctx \<Longrightarrow> base64Audio m = None \<or> base64Audio m = Some [] \<Longrightarrow>
   handleServerMessage t m s = handle_interruption m s"
  by (auto simp: handleServerMessage_def)

lemma call_suspended:
  "outputAudioContext s = Some ctx \<Longrightarrow> base64Audio m = Some b \<Longrightarrow> b \<noteq> [] \<Longrightarrow>
   handleServerMessage t m s =
     ((raise_cursor t s)\<lparr>pending := pending s @ [\<lparr>act_audio = b, act_message = m\<rparr>]\<rparr>, [])"
  by (cases b) (simp_all add: handleServerMessage_def raise_cursor_def)

lemma payload_cases:
  obtains (silent) "base64Audio m = None \<or> base64Audio m = Some []"
  | (audio) b where "base64Audio m = Some b" "b \<noteq> []"
  by (cases "base64Audio m") auto

lemma output_failed:
  "dec (act_audio a) = Inl (e :: decode_error) \<Longrightarrow>
   handle_audio_output add dec a s = (s, [ConsoleError ''Error decoding audio''])"
  by (simp add: handle_audio_output_def)

lemma output_scheduled:
  "dec (act_audio a) = Inr buf \<Longrightarrow> outputAudioContext s = Some ctx \<Longrightarrow>
   handle_audio_output add dec a s =
     (schedule_source add buf s,
      [SourceStart \<lparr>node_id = next_node s, buffer = buf, gain_value = 12 / 10\<rparr> (nextStartTime s)])"
  by (simp add: handle_audio_output_def schedule_source_def Let_def)

lemma output_unplayable:
  "dec (act_audio a) = Inr buf \<Longrightarrow> outputAudioContext s = None \<Longrightarrow>
   handle_audio_output add dec a s = (s, [ConsoleError ''Error decoding audio''])"
  by (simp add: handle_audio_output_def)

lemma resume_absent:
  "\<not> k < length (pending s) \<Longrightarrow> handleServerMessage_resume add dec k s = (s, [])"
  by (simp add: handleServerMessage_resume_def)

lemma resume_present:
  "k < length (pending s) \<Longrightarrow>
   handleServerMessage_resume add dec k s =
     (fst (handle_interruption (act_message (pending s ! k))
        (fst (handle_audio_output add dec (pending s ! k) (drop_activation k s)))),
      snd (handle_audio_output add dec (pending s ! k) (drop_activation k s))
      @ snd (handle_interruption (act_message (pending s ! k))
          (fst (handle_audio_output add dec (pending s ! k) (drop_activation k s)))))"
  by (simp add: handleServerMessage_resume_def Let_def split_beta)

lemma interruption_on:
  "is_interrupted m \<Longrightarrow>
   handle_interruption m s =
     (s\<lparr>sources := [], nextStartTime := 0\<rparr>, map (\<lambda>src. SourceStop (node_id src)) (sources s))"
  by (simp add: handle_interruption_def)

lemma interruption_off: "\<not> is_interrupted m \<Longrightarrow> handle_interruption m s = (s, [])"
  by (simp add: handle_interruption_def)

lemma interruption_fields [simp]:
  "outputAudioContext (fst (handle_interruption m s)) = outputAudioContext s"
  "pending (fst (handle_interruption m s)) = pending s"
  "next_node (fst (handle_interruption m s)) = next_node s"
  by (simp_all add: handle_interruption_def)

lemma raise_cursor_fields [simp]:
  "outputAudioContext (raise_cursor t s) = outputAudioContext s"
  "sources (raise_cursor t s) = sources s"
  "next_node (raise_cursor t s) = next_node s"
  "pending (raise_cursor t s) = pending s"
  "nextStartTime (raise_cursor t s) = max (nextStartTime s) t"
  by (simp_all add: raise_cursor_def)

lemma schedule_source_fields [simp]:
  "outputAudioContext (schedule_source add b s) = outputAudioContext s"
  "sources (schedule_source add b s) =
     sources s @ [\<lparr>node_id = next_node s, buffer = b, gain_value = 12 / 10\<rparr>]"
  "next_node (schedule_source add b s) = Suc (next_node s)"
  "pending (schedule_source add b s) = pending s"
  "nextStartTime (schedule_source add b s) = add (nextStartTime s) (duration b)"
  by (simp_all add: schedule_source_def)

lemma drop_activation_fields [simp]:
  "outputAudioContext (drop_activation k s) = outputAudioContext s"
  "sources (drop_activation k s) = sources s"
  "next_node (drop_activation k s) = next_node s"
  "nextStartTime (drop_activation k s) = nextStartTime s"
  "pending (drop_activation k s) = take k (pending s) @ drop (Suc k) (pending s)"
  by (simp_all add: drop_activation_def)

lemma stopped_map: "stopped (map (\<lambda>src. SourceStop (node_id src)) xs) = map node_id xs"
  by (induction xs) auto

lemma stopped_append: "stopped (xs @ ys) = stopped xs @ stopped ys"
  by (induction xs rule: stopped.induct) auto

lemma started_append: "started (xs @ ys) = started xs @ started ys"
  by (induction xs rule: started.induct) auto

lemma start_times_append: "start_times (xs @ ys) = start_times xs @ start_times ys"
  by (induction xs rule: start_times.induct) auto

lemma started_stops: "started (map (\<lambda>src. SourceStop (node_id src)) xs) = []"
  by (induction xs) auto

lemma start_times_stops: "start_times (map (\<lambda>src. SourceStop (node_id src)) xs) = []"
  by (induction xs) auto

lemma started_interruption [simp]: "started (snd (handle_interruption m s)) = []"
  by (simp add: handle_interruption_def started_stops)

lemma start_times_interruption [simp]: "start_times (snd (handle_interruption m s)) = []"
  by (simp add: handle_interruption_def start_times_stops)

lemma run_append:
  "run_schedule add dec (xs @ ys) s =
     (fst (run_schedule add dec ys (fst (run_schedule add dec xs s))),
      snd (run_schedule add dec xs s)
      @ snd (run_schedule add dec ys (fst (run_schedule add dec xs s))))"
  by (induction xs arbitrary: s) (simp_all add: split_beta)

lemma run_step:
  "run_schedule add dec (x # xs) s =
     (fst (run_schedule add dec xs (fst (take_step add dec x s))),
      snd (take_step add dec x s) @ snd (run_schedule add dec xs (fst (take_step add dec x s))))"
  by (simp add: split_beta)

section \<open>One message at a time\<close>

lemma pending_absent [simp]: "pending s = [] \<Longrightarrow> s\<lparr>pending := []\<rparr> = s"
  by simp

lemma in_turn_step:
  "run_schedule add dec (in_turn ((t, m) # evs)) s =
     (fst (run_schedule add dec (in_turn evs) (fst (turn add dec t m s))),
      snd (turn add dec t m s) @ snd (run_schedule add dec (in_turn evs) (fst (turn add dec t m s))))"
  by (simp add: turn_def split_beta)

lemma turn_without_context:
  "outputAudioContext s = None \<Longrightarrow> pending s = [] \<Longrightarrow> turn add dec t m s = (s, [])"
  by (simp add: turn_def call_without_context resume_absent)

lemma turn_silent:
  assumes "outputAudioContext s = Some ctx" and "pending s = []"
      and "base64Audio m = None \<or> base64Audio m = Some []"
  shows "turn add dec t m s = handle_interruption m s"
  using assms by (simp add: turn_def call_silent [OF assms(1,3)] resume_absent split_beta)

lemma dropped_again:
  "pending s = [] \<Longrightarrow>
   drop_activation 0 ((raise_cursor t s)\<lparr>pending := pending s @ [a]\<rparr>) = raise_cursor t s"
  by (simp add: drop_activation_def raise_cursor_def)

lemma turn_failed:
  assumes "outputAudioContext s = Some ctx" and "pending s = []"
      and "base64Audio m = Some b" and "b \<noteq> []" and "dec b = Inl (e :: decode_error)"
  shows "turn add dec t m s =
           (fst (handle_interruption m (raise_cursor t s)),
            ConsoleError ''Error decoding audio'' # snd (handle_interruption m (raise_cursor t s)))"
proof -
  let ?a = "\<lparr>act_audio = b, act_message = m\<rparr>"
  let ?s1 = "(raise_cursor t s)\<lparr>pending := pending s @ [?a]\<rparr>"
  have call: "handleServerMessage t m s = (?s1, [])"
    using call_suspended [OF assms(1,3,4)] .
  have k: "0 < length (pending ?s1)" by simp
  have a: "pending ?s1 ! 0 = ?a" using assms(2) by simp
  have d: "drop_activation 0 ?s1 = raise_cursor t s"
    using dropped_again [OF assms(2)] .
  have f: "dec (act_audio ?a) = Inl e" using assms(5) by simp
  show ?thesis
    using resume_present [OF k, of add dec] f
    by (simp add: turn_def call assms(2) d [simplified assms(2), simplified]
        output_failed [where dec = dec])
qed

lemma turn_scheduled:
  assumes "outputAudioContext s = Some ctx" and "pending s = []"
      and "base64Audio m = Some b" and "b \<noteq> []" and "dec b = Inr buf"
  shows "turn add dec t m s =
           (fst (handle_interruption m (schedule_source add buf (raise_cursor t s))),
            SourceStart \<lparr>node_id = next_node s, buffer = buf, gain_value = 12 / 10\<rparr>
              (max (nextStartTime s) t)
            # snd (handle_interruption m (schedule_source add buf (raise_cursor t s))))"
proof -
  let ?a = "\<lparr>act_audio = b, act_message = m\<rparr>"
  let ?s1 = "(raise_cursor t s)\<lparr>pending := pending s @ [?a]\<rparr>"
  have call: "handleServerMessage t m s = (?s1, [])"
    using call_suspended [OF assms(1,3,4)] .
  have k: "0 < length (pending ?s1)" by simp
  have a: "pending ?s1 ! 0 = ?a" using assms(2) by simp
  have d: "drop_activation 0 ?s1 = raise_cursor t s"
    using dropped_again [OF assms(2)] .
  have f: "dec (act_audio ?a) = Inr buf" using assms(5) by simp
  have c: "outputAudioContext (raise_cursor t s) = Some ctx" using assms(1) by simp
  show ?thesis
    using resume_present [OF k, of add dec] f c
    by (simp add: turn_def call assms(2) d [simplified assms(2), simplified]
        output_scheduled [where dec = dec])
qed

lemma turn_cases:
  assumes "pending s = []"
  obtains
    (no_context) "outputAudioContext s = None" "turn add dec t m s = (s, [])"
  | (silent) ctx where "outputAudioContext s = Some ctx"
      "base64Audio m = None \<or> base64Audio m = Some []"
      "turn add dec t m s = handle_interruption m s"
  | (failed) ctx b e where "outputAudioContext s = Some ctx" "base64Audio m = Some b" "b \<noteq> []"
      "dec b = Inl (e :: decode_error)"
      "turn add dec t m s =
         (fst (handle_interruption m (raise_cursor t s)),
          ConsoleError ''Error decoding audio'' # snd (handle_interruption m (raise_cursor t s)))"
  | (scheduled) ctx b buf where "outputAudioContext s = Some ctx" "base64Audio m = Some b"
      "b \<noteq> []" "dec b = Inr (buf :: audio_buffer)"
      "turn add dec t m s =
         (fst (handle_interruption m (schedule_source add buf (raise_cursor t s))),
          SourceStart \<lparr>node_id = next_node s, buffer = buf, gain_value = 12 / 10\<rparr>
            (max (nextStartTime s) t)
          # snd (handle_interruption m (schedule_source add buf (raise_cursor t s))))"
proof (cases "outputAudioContext s")
  case None
  show ?thesis
    using no_context None turn_without_context [OF None assms, of add dec t m] by blast
next
  case (Some ctx)
  show ?thesis
  proof (rule payload_cases [of m])
    assume q: "base64Audio m = None \<or> base64Audio m = Some []"
    show ?thesis by (rule silent [OF Some q turn_silent [OF Some assms q]])
  next
    fix b assume b: "base64Audio m = Some b" "b \<noteq> []"
    show ?thesis
    proof (cases "dec b")
      case (Inl e)
      show ?thesis
        by (rule failed [OF Some b Inl turn_failed [where dec = dec, OF Some assms b Inl]])
    next
      case (Inr buf)
      show ?thesis
        by (rule scheduled [OF Some b Inr turn_scheduled [where dec = dec, OF Some assms b Inr]])
    qed
  qed
qed

lemma turn_keeps:
  assumes "pending s = []"
  shows "pending (fst (turn add dec t m s)) = []"
    and "outputAudioContext (fst (turn add dec t m s)) = outputAudioContext s"
  by (rule turn_cases [OF assms, of add dec t m]; simp add: assms)+

section \<open>Gapless scheduling\<close>

lemmas handler_defs =
  handleServerMessage_def handleServerMessage_resume_def drop_activation_def
  handle_audio_output_def handle_interruption_def Let_def






lemma quiet_dropped: "quiet_pending s \<Longrightarrow> quiet_pending (drop_activation k s)"
proof -
  have "set (take k (pending s) @ drop (Suc k) (pending s)) \<subseteq> set (pending s)"
    using set_take_subset [of k "pending s"] set_drop_subset [of "Suc k" "pending s"] by auto
  then show "quiet_pending s \<Longrightarrow> quiet_pending (drop_activation k s)"
    by (auto simp: quiet_pending_def list_all_iff)
qed

lemma quiet_nth:
  "quiet_pending s \<Longrightarrow> k < length (pending s) \<Longrightarrow> \<not> is_interrupted (act_message (pending s ! k))"
  by (simp add: quiet_pending_def list_all_length)








section \<open>Interruption\<close>

lemma output_keeps_sources:
  "set (sources s) \<subseteq> set (sources (fst (handle_audio_output add dec a s)))"
  by (cases "dec (act_audio a)"; cases "outputAudioContext s")
    (auto simp: handle_audio_output_def Let_def)

lemma interruption_at_arrival:
  assumes "session_inv s" and "is_interrupted m"
      and "base64Audio m = None \<or> base64Audio m = Some []"
  shows "sources (fst (handleServerMessage t m s)) = []"
    and "nextStartTime (fst (handleServerMessage t m s)) = 0"
    and "pending (fst (handleServerMessage t m s)) = pending s"
    and "set (map node_id (sources s)) \<subseteq> set (stopped (snd (handleServerMessage t m s)))"
proof -
  show "sources (fst (handleServerMessage t m s)) = []"
    using assms
    by (cases "outputAudioContext s")
      (simp_all add: call_without_context call_silent interruption_on session_inv_def)
  show "nextStartTime (fst (handleServerMessage t m s)) = 0"
    using assms
    by (cases "outputAudioContext s")
      (simp_all add: call_without_context call_silent interruption_on session_inv_def)
  show "pending (fst (handleServerMessage t m s)) = pending s"
    using assms
    by (cases "outputAudioContext s")
      (simp_all add: call_without_context call_silent interruption_on session_inv_def)
  show "set (map node_id (sources s)) \<subseteq> set (stopped (snd (handleServerMessage t m s)))"
    using assms
    by (cases "outputAudioContext s")
      (simp_all add: call_without_context call_silent interruption_on session_inv_def stopped_map)
qed

lemma interruption_at_settling:
  assumes "k < length (pending s)" and "is_interrupted (act_message (pending s ! k))"
  shows "sources (fst (handleServerMessage_resume add dec k s)) = []"
    and "nextStartTime (fst (handleServerMessage_resume add dec k s)) = 0"
    and "pending (fst (handleServerMessage_resume add dec k s)) = pending (drop_activation k s)"
    and "set (map node_id (sources s))
           \<subseteq> set (stopped (snd (handleServerMessage_resume add dec k s)))"
proof -
  let ?a = "pending s ! k"
  let ?o = "handle_audio_output add dec ?a (drop_activation k s)"
  show "sources (fst (handleServerMessage_resume add dec k s)) = []"
    by (simp add: resume_present [OF assms(1)] interruption_on [OF assms(2)])
  show "nextStartTime (fst (handleServerMessage_resume add dec k s)) = 0"
    by (simp add: resume_present [OF assms(1)] interruption_on [OF assms(2)])
  have p: "pending (fst ?o) = pending (drop_activation k s)"
    by (cases "dec (act_audio ?a)"; cases "outputAudioContext s")
      (simp_all add: handle_audio_output_def Let_def)
  show "pending (fst (handleServerMessage_resume add dec k s)) = pending (drop_activation k s)"
    using p by (simp add: resume_present [OF assms(1)] interruption_on [OF assms(2)])
  have "node_id ` set (sources s) \<subseteq> node_id ` set (sources (fst ?o))"
    using output_keeps_sources [of "drop_activation k s" add dec ?a] by auto
  then show "set (map node_id (sources s))
           \<subseteq> set (stopped (snd (handleServerMessage_resume add dec k s)))"
    by (simp add: resume_present [OF assms(1)] interruption_on [OF assms(2)] stopped_append
        stopped_map le_supI2)
qed

lemma start_after_reset:
  assumes "nextStartTime s = 0" and "pending s = []" and "0 \<le> t"
  shows "\<forall>x \<in> set (start_times (snd (turn add dec t m s))). x = t"
  by (rule turn_cases [OF assms(2), of add dec t m])
    (insert assms(1,3), simp_all add: start_times_append)

lemma unbroken_step:
  assumes J: "(pending s = [] \<and> nextStartTime s = 0) \<or> nextStartTime s \<in> R"
      and u: "unbroken x" and quiet: "quiet_pending s"
  shows "(start_times (snd (take_step add dec x s)) = []
          \<and> quiet_pending (fst (take_step add dec x s))
          \<and> ((pending (fst (take_step add dec x s)) = []
                \<and> nextStartTime (fst (take_step add dec x s)) = 0)
              \<or> nextStartTime (fst (take_step add dec x s)) \<in> R \<union> set (arrival_times [x])))
       \<or> (\<exists>c rest. start_times (snd (take_step add dec x s)) = c # rest \<and> c \<in> R)"
proof (cases x)
  case (Arrive t m)
  have t: "0 \<le> t" and m: "\<not> is_interrupted m" using u Arrive by simp_all
  show ?thesis
  proof (cases "outputAudioContext s")
    case None
    then show ?thesis using J quiet by (auto simp: Arrive call_without_context)
  next
    case (Some ctx)
    show ?thesis
    proof (rule payload_cases [of m])
      assume q: "base64Audio m = None \<or> base64Audio m = Some []"
      show ?thesis
        using J quiet by (auto simp: Arrive call_silent [OF Some q] interruption_off [OF m])
    next
      fix b assume b: "base64Audio m = Some b" "b \<noteq> []"
      have "max (nextStartTime s) t \<in> R \<union> {t}"
        using J t by (auto simp: max_def)
      then show ?thesis
        using quiet m by (simp add: Arrive call_suspended [OF Some b] quiet_pending_def)
    qed
  qed
next
  case (Settle k)
  show ?thesis
  proof (cases "k < length (pending s)")
    case False
    then show ?thesis using J quiet by (auto simp: Settle resume_absent)
  next
    case True
    let ?a = "pending s ! k"
    let ?s0 = "drop_activation k s"
    have c: "nextStartTime s \<in> R" using J True by auto
    have m: "\<not> is_interrupted (act_message ?a)" using quiet_nth [OF quiet True] .
    have q0: "quiet_pending ?s0" using quiet_dropped [OF quiet] .
    show ?thesis
    proof (cases "dec (act_audio ?a)")
      case (Inl e)
      show ?thesis
        using q0 c
        by (simp add: Settle resume_present [OF True] output_failed [where dec = dec, OF Inl]
            interruption_off [OF m])
    next
      case (Inr buf)
      show ?thesis
      proof (cases "outputAudioContext s")
        case None
        then have n: "outputAudioContext ?s0 = None" by simp
        show ?thesis
          using q0 c
          by (simp add: Settle resume_present [OF True]
              output_unplayable [where dec = dec, OF Inr n] interruption_off [OF m])
      next
        case (Some ctx)
        then have n: "outputAudioContext ?s0 = Some ctx" by simp
        show ?thesis
          using c
          by (simp add: Settle resume_present [OF True]
              output_scheduled [where dec = dec, OF Inr n] interruption_off [OF m])
      qed
    qed
  qed
qed

lemma first_start_read:
  assumes "(pending s = [] \<and> nextStartTime s = 0) \<or> nextStartTime s \<in> R"
      and "list_all unbroken steps" and "quiet_pending s"
  shows "\<forall>x \<in> set (take 1 (start_times (snd (run_schedule add dec steps s)))).
           x \<in> R \<union> set (arrival_times steps)"
  using assms
proof (induction steps arbitrary: s R)
  case Nil
  then show ?case by simp
next
  case (Cons x xs)
  let ?s1 = "fst (take_step add dec x s)"
  let ?e1 = "snd (take_step add dec x s)"
  have ux: "unbroken x" and uxs: "list_all unbroken xs" using Cons.prems(2) by simp_all
  note st = unbroken_step [OF Cons.prems(1) ux Cons.prems(3), of add dec]
  have arr: "set (arrival_times (x # xs)) = set (arrival_times [x]) \<union> set (arrival_times xs)"
    by (cases x) auto
  from st show ?case
  proof
    assume a: "start_times ?e1 = [] \<and> quiet_pending ?s1
          \<and> ((pending ?s1 = [] \<and> nextStartTime ?s1 = 0)
              \<or> nextStartTime ?s1 \<in> R \<union> set (arrival_times [x]))"
    then have j1: "(pending ?s1 = [] \<and> nextStartTime ?s1 = 0)
              \<or> nextStartTime ?s1 \<in> R \<union> set (arrival_times [x])"
      and q1: "quiet_pending ?s1" and e1: "start_times ?e1 = []"
      by blast+
    have "\<forall>y \<in> set (take 1 (start_times (snd (run_schedule add dec xs ?s1)))).
           y \<in> (R \<union> set (arrival_times [x])) \<union> set (arrival_times xs)"
      using Cons.IH [OF j1 uxs q1] .
    then show ?thesis
      using e1 arr by (simp add: split_beta start_times_append Un_assoc)
  next
    assume "\<exists>c rest. start_times ?e1 = c # rest \<and> c \<in> R"
    then obtain c rest where "start_times ?e1 = c # rest" "c \<in> R" by blast
    then show ?thesis
      by (simp add: split_beta start_times_append)
  qed
qed

text \<open>
  Claim C2, as the code has it. In every state the session can be in, the interruption
  block stops every member of \<open>sources\<close>, leaves the set empty and the cursor at 0. It
  runs when the message arrives if the message has no audio, and when the decode settles
  if it has. It leaves the suspended calls suspended: a chunk that is being decoded when
  the interruption runs is not cancelled.

  From a state with the cursor at 0 and no suspended call, as after an interruption that
  found none, and as long as no further interruption arrives, the first chunk started
  starts at the clock reading of a message arrival after the interruption, in every
  interleaving; and a chunk whose message arrives next and is decoded with nothing in
  between starts at the clock reading of its own arrival. The clock is never negative.
\<close>

theorem interruption_resets:
  assumes "session_inv s"
  shows "(is_interrupted m \<and> (base64Audio m = None \<or> base64Audio m = Some []) \<longrightarrow>
            sources (fst (handleServerMessage t m s)) = []
            \<and> nextStartTime (fst (handleServerMessage t m s)) = 0
            \<and> pending (fst (handleServerMessage t m s)) = pending s
            \<and> set (map node_id (sources s)) \<subseteq> set (stopped (snd (handleServerMessage t m s))))
       \<and> (k < length (pending s) \<and> is_interrupted (act_message (pending s ! k)) \<longrightarrow>
            sources (fst (handleServerMessage_resume add dec k s)) = []
            \<and> nextStartTime (fst (handleServerMessage_resume add dec k s)) = 0
            \<and> pending (fst (handleServerMessage_resume add dec k s)) = pending (drop_activation k s)
            \<and> set (map node_id (sources s))
                 \<subseteq> set (stopped (snd (handleServerMessage_resume add dec k s))))
       \<and> (nextStartTime s = 0 \<and> pending s = [] \<and> list_all unbroken steps \<longrightarrow>
            (\<forall>x \<in> set (take 1 (start_times (snd (run_schedule add dec steps s)))).
               x \<in> set (arrival_times steps)))
       \<and> (nextStartTime s = 0 \<and> pending s = [] \<and> 0 \<le> t' \<longrightarrow>
            (\<forall>x \<in> set (start_times (snd (turn add dec t' m' s))). x = t'))"
proof (intro conjI impI)
  assume a: "is_interrupted m \<and> (base64Audio m = None \<or> base64Audio m = Some [])"
  then have i: "is_interrupted m" and q: "base64Audio m = None \<or> base64Audio m = Some []"
    by simp_all
  show "sources (fst (handleServerMessage t m s)) = []"
    using interruption_at_arrival(1) [OF assms i q] .
  show "nextStartTime (fst (handleServerMessage t m s)) = 0"
    using interruption_at_arrival(2) [OF assms i q] .
  show "pending (fst (handleServerMessage t m s)) = pending s"
    using interruption_at_arrival(3) [OF assms i q] .
  show "set (map node_id (sources s)) \<subseteq> set (stopped (snd (handleServerMessage t m s)))"
    using interruption_at_arrival(4) [OF assms i q] .
next
  assume a: "k < length (pending s) \<and> is_interrupted (act_message (pending s ! k))"
  then have k: "k < length (pending s)" and i: "is_interrupted (act_message (pending s ! k))"
    by simp_all
  show "sources (fst (handleServerMessage_resume add dec k s)) = []"
    using interruption_at_settling(1) [OF k i] .
  show "nextStartTime (fst (handleServerMessage_resume add dec k s)) = 0"
    using interruption_at_settling(2) [OF k i] .
  show "pending (fst (handleServerMessage_resume add dec k s)) = pending (drop_activation k s)"
    using interruption_at_settling(3) [OF k i] .
  show "set (map node_id (sources s))
          \<subseteq> set (stopped (snd (handleServerMessage_resume add dec k s)))"
    using interruption_at_settling(4) [OF k i] .
next
  assume a: "nextStartTime s = 0 \<and> pending s = [] \<and> list_all unbroken steps"
  then have j: "(pending s = [] \<and> nextStartTime s = 0) \<or> nextStartTime s \<in> {}"
    and u: "list_all unbroken steps" and q: "quiet_pending s"
    by (simp_all add: quiet_pending_def)
  show "\<forall>x \<in> set (take 1 (start_times (snd (run_schedule add dec steps s)))).
          x \<in> set (arrival_times steps)"
    using first_start_read [OF j u q, of add dec] by simp
next
  assume a: "nextStartTime s = 0 \<and> pending s = [] \<and> 0 \<le> t'"
  then show "\<forall>x \<in> set (start_times (snd (turn add dec t' m' s))). x = t'"
    using start_after_reset [of s t' add dec m'] by blast
qed

text \<open>
  The scenario of the specification: a chunk of two seconds is playing since time 0, the
  interruption comes at 0.5, and the next chunk starts at 0.5.
\<close>

theorem interruption_resets_witness:
  "session_inv playing_session \<and> is_interrupted (plain_message True)
   \<and> base64Audio (plain_message True) = None
   \<and> handleServerMessage (1 / 2) (plain_message True) playing_session =
       (reset_session, [SourceStop 0])
   \<and> session_inv suspended_session
   \<and> is_interrupted (act_message (pending suspended_session ! 0))
   \<and> sources (fst (handleServerMessage_resume (+) example_decode 0 suspended_session)) = []
   \<and> stopped (snd (handleServerMessage_resume (+) example_decode 0 suspended_session)) = [0, 1]
   \<and> session_inv reset_session \<and> nextStartTime reset_session = 0 \<and> pending reset_session = []
   \<and> list_all unbroken after_barge_in
   \<and> start_times (snd (run_schedule (+) example_decode after_barge_in reset_session)) = [3 / 4]
   \<and> arrival_times after_barge_in = [1 / 2, 3 / 4]
   \<and> start_times (snd (turn (+) example_decode (1 / 2) (audio_message ''A'' False) reset_session))
       = [1 / 2]"
proof -
  have inv: "session_inv playing_session"
    by (simp add: session_inv_def example_defs)
  have int: "is_interrupted (plain_message True)"
    by (simp add: example_defs)
  have none: "base64Audio (plain_message True) = None"
    by (simp add: example_defs)
  have ev: "handleServerMessage (1 / 2) (plain_message True) playing_session =
       (reset_session, [SourceStop 0])"
    by (simp add: handler_defs example_defs reset_session_def)
  have inv2: "session_inv suspended_session"
    by (simp add: session_inv_def suspended_session_def example_defs)
  have k: "0 < length (pending suspended_session)"
    by (simp add: suspended_session_def)
  have int2: "is_interrupted (act_message (pending suspended_session ! 0))"
    by (simp add: suspended_session_def example_defs)
  have st: "stopped (snd (handleServerMessage_resume (+) example_decode 0 suspended_session))
       = [0, 1]"
    by (simp add: handler_defs example_defs suspended_session_def)
  have inv3: "session_inv reset_session"
    by (simp add: session_inv_def reset_session_def example_defs)
  have c0: "nextStartTime reset_session = 0" and p0: "pending reset_session = []"
    by (simp_all add: reset_session_def example_defs)
  have u: "list_all unbroken after_barge_in"
    by (simp add: after_barge_in_def example_defs)
  have run: "start_times (snd (run_schedule (+) example_decode after_barge_in reset_session))
       = [3 / 4]"
    by (simp add: after_barge_in_def handler_defs example_defs reset_session_def)
  have arr: "arrival_times after_barge_in = [1 / 2, 3 / 4]"
    by (simp add: after_barge_in_def)
  have one: "start_times (snd (turn (+) example_decode (1 / 2) (audio_message ''A'' False)
       reset_session)) = [1 / 2]"
    by (simp add: turn_def handler_defs example_defs reset_session_def)
  have le: "(0::real) \<le> 1 / 2" by simp
  note a = interruption_resets [OF inv, of "plain_message True" "1 / 2"]
  note b = interruption_resets [OF inv2, of _ _ 0 "(+)" example_decode]
  note c = interruption_resets [OF inv3, of _ _ _ "(+)" example_decode after_barge_in "1 / 2"
      "audio_message ''A'' False"]
  have s2: "sources (fst (handleServerMessage_resume (+) example_decode 0 suspended_session)) = []"
    using b k int2 by blast
  have r1: "\<forall>x \<in> set (take 1 (start_times (snd (run_schedule (+) example_decode after_barge_in
       reset_session)))). x \<in> set (arrival_times after_barge_in)"
    using c c0 p0 u by blast
  have r2: "\<forall>x \<in> set (start_times (snd (turn (+) example_decode (1 / 2)
       (audio_message ''A'' False) reset_session))). x = 1 / 2"
    using c c0 p0 le by blast
  have a1: "sources (fst (handleServerMessage (1 / 2) (plain_message True) playing_session)) = []"
    using a int none by blast
  show ?thesis
    using inv int none ev inv2 int2 s2 st inv3 c0 p0 u run arr one a1 r1 r2
    by simp
qed

text \<open>
  A chunk that is being decoded when the interruption arrives is started after it at
  time 0, is not stopped, and the chunk after it starts at 1, the end of a chunk that
  should have gone.
\<close>

theorem suspended_chunk_outlives_interruption:
  "snd (run_schedule (+) example_decode barge_in_overlap streaming_session) =
     [SourceStart \<lparr>node_id = 0, buffer = \<lparr>duration = 2, samples = []\<rparr>, gain_value = 12 / 10\<rparr> 0,
      SourceStop 0,
      SourceStart \<lparr>node_id = 1, buffer = \<lparr>duration = 1, samples = []\<rparr>, gain_value = 12 / 10\<rparr> 0,
      SourceStart \<lparr>node_id = 2, buffer = \<lparr>duration = 1 / 2, samples = []\<rparr>, gain_value = 12 / 10\<rparr> 1]
   \<and> map node_id (sources (fst (run_schedule (+) example_decode barge_in_overlap streaming_session)))
       = [1, 2]"
  by (simp add: barge_in_overlap_def handler_defs example_defs)

section \<open>The states a session can reach\<close>

text \<open>
  A new session has no output context, no source, no suspended call and the cursor 0,
  and every method, callback and resumed call keeps it so until the output context
  exists: \<open>session_inv\<close> holds in every state a session can be in.
\<close>

lemma call_context:
  "outputAudioContext (fst (handleServerMessage t m s)) = outputAudioContext s"
proof (cases "outputAudioContext s")
  case None
  then show ?thesis by (simp add: call_without_context)
next
  case (Some ctx)
  show ?thesis
    by (rule payload_cases [of m])
      (simp_all add: call_silent [OF Some] call_suspended [OF Some] Some)
qed

lemma output_context:
  "outputAudioContext (fst (handle_audio_output add dec a s)) = outputAudioContext s"
  by (cases "dec (act_audio a)"; cases "outputAudioContext s")
    (simp_all add: handle_audio_output_def Let_def)

lemma resume_context:
  "outputAudioContext (fst (handleServerMessage_resume add dec k s)) = outputAudioContext s"
  by (cases "k < length (pending s)")
    (simp_all add: resume_present resume_absent output_context)

lemma step_context:
  "outputAudioContext (fst (take_step add dec x s)) = outputAudioContext s"
  by (cases x) (simp_all add: call_context resume_context)

lemma run_context:
  "outputAudioContext (fst (run_schedule add dec xs s)) = outputAudioContext s"
  by (induction xs arbitrary: s) (simp_all add: split_beta step_context)

lemma inv_new: "session_inv new_session"
  by (simp add: session_inv_def new_session_def)

lemma inv_step:
  assumes "session_inv s"
  shows "session_inv (fst (take_step add dec x s))"
proof (cases "outputAudioContext s")
  case None
  then have p: "pending s = []" using assms by (simp add: session_inv_def)
  show ?thesis
    using assms None p by (cases x) (simp_all add: call_without_context resume_absent)
next
  case (Some ctx)
  then show ?thesis by (simp add: session_inv_def step_context)
qed

lemma inv_run: "session_inv s \<Longrightarrow> session_inv (fst (run_schedule add dec xs s))"
proof (induction xs arbitrary: s)
  case Nil
  then show ?case by simp
next
  case (Cons x xs)
  show ?case
    using Cons.IH [OF inv_step [OF Cons.prems, of add dec x]] by (simp add: split_beta)
qed

lemma inv_ended: "session_inv s \<Longrightarrow> session_inv (source_ended n s)"
  by (simp add: session_inv_def source_ended_def)

lemma init_cursor:
  "sources (snd (init_audio_contexts env s)) = sources s"
  "nextStartTime (snd (init_audio_contexts env s)) = nextStartTime s"
  "pending (snd (init_audio_contexts env s)) = pending s"
  "outputAudioContext s \<noteq> None \<Longrightarrow> outputAudioContext (snd (init_audio_contexts env s)) \<noteq> None"
  by (simp_all add: init_audio_contexts_def Let_def split: option.splits)

lemma init_output_absent:
  "outputAudioContext (snd (init_audio_contexts env s)) = None \<Longrightarrow> outputAudioContext s = None"
  using init_cursor(4) by blast

lemma inv_connect:
  assumes "session_inv s"
  shows "session_inv (fst (snd (connect env i s)))"
proof -
  have a: "session_inv (snd (init_audio_contexts env s))"
    using assms init_output_absent [of env s]
    by (auto simp: session_inv_def init_cursor)
  obtain ok s1 where q: "init_audio_contexts env s = (ok, s1)"
    by (cases "init_audio_contexts env s")
  have s1: "session_inv s1" using a q by simp
  show ?thesis
    using s1
    by (cases ok; cases "getUserMedia env") (simp_all add: connect_def q session_inv_def)
qed

lemma inv_chain: "session_inv s \<Longrightarrow> session_inv (fst (chain_on_promise r s))"
  by (simp add: session_inv_def chain_on_promise_def split: option.splits session_promise.splits)

lemma inv_perform: "session_inv s \<Longrightarrow> session_inv (fst (perform c s))"
  by (induction c s rule: perform.induct)
    (auto simp: session_inv_def close_context_def split: option.splits)

lemma inv_run_calls: "session_inv s \<Longrightarrow> session_inv (fst (snd (run_calls throws cs s)))"
proof (induction cs arbitrary: s)
  case Nil
  then show ?case by simp
next
  case (Cons c cs)
  show ?case
    using Cons.IH [OF inv_perform [OF Cons.prems, of c]] Cons.prems
    by (simp add: split_beta)
qed

lemma inv_disconnect:
  assumes "session_inv s"
  shows "session_inv (fst (snd (disconnect throws s)))"
proof -
  obtain r s1 e1 where q: "run_calls throws (teardown_calls s) s = (r, s1, e1)"
    by (cases "run_calls throws (teardown_calls s) s")
  have s1: "session_inv s1"
    using inv_run_calls [OF assms, of throws "teardown_calls s"] q by simp
  show ?thesis
    using s1 inv_chain [OF s1, of CloseReaction]
    by (cases r) (simp_all add: disconnect_def q split_beta)
qed

lemma inv_capture: "session_inv s \<Longrightarrow> session_inv (fst (onaudioprocess enc f s))"
  by (simp add: onaudioprocess_def inv_chain)

lemma inv_streaming: "session_inv s \<Longrightarrow> session_inv (fst (startAudioStreaming ok s))"
  by (simp add: startAudioStreaming_def session_inv_def)

lemma inv_settled:
  "session_inv s \<Longrightarrow> session_inv (fst (promise_fulfilled v s))"
  "session_inv s \<Longrightarrow> session_inv (fst (promise_rejected s))"
  by (simp_all add: session_inv_def promise_fulfilled_def promise_rejected_def
      split: option.splits session_promise.splits)

section \<open>The order of scheduling\<close>

lemma decodes_cases:
  obtains (none) "decodes_to dec m = None"
      "base64Audio m = None \<or> base64Audio m = Some [] \<or> (\<exists>b e. base64Audio m = Some b \<and> b \<noteq> [] \<and> dec b = Inl (e :: decode_error))"
  | (some) b buf where "decodes_to dec m = Some buf" "base64Audio m = Some b" "b \<noteq> []"
      "dec b = Inr (buf :: audio_buffer)"
proof (rule payload_cases [of m])
  assume q: "base64Audio m = None \<or> base64Audio m = Some []"
  then have "decodes_to dec m = None" by (auto simp: decodes_to_def)
  then show ?thesis using none q by blast
next
  fix b assume b: "base64Audio m = Some b" "b \<noteq> []"
  show ?thesis
  proof (cases "dec b")
    case (Inl e)
    then have "decodes_to dec m = None"
      using b by (cases b) (simp_all add: decodes_to_def)
    then show ?thesis using none b Inl by blast
  next
    case (Inr buf)
    then have "decodes_to dec m = Some buf"
      using b by (cases b) (simp_all add: decodes_to_def)
    then show ?thesis using some b Inr by blast
  qed
qed

lemma turn_started:
  assumes "outputAudioContext s = Some ctx" and "pending s = []"
  shows "map buffer (started (snd (turn add dec t m s))) =
           (case decodes_to dec m of None \<Rightarrow> [] | Some buf \<Rightarrow> [buf])"
proof (rule decodes_cases [of dec m])
  assume n: "decodes_to dec m = None"
    and d: "base64Audio m = None \<or> base64Audio m = Some []
        \<or> (\<exists>b e. base64Audio m = Some b \<and> b \<noteq> [] \<and> dec b = Inl (e :: decode_error))"
  from d show ?thesis
  proof (elim disjE exE conjE)
    assume "base64Audio m = None"
    then show ?thesis by (simp add: n turn_silent [OF assms])
  next
    assume "base64Audio m = Some []"
    then show ?thesis by (simp add: n turn_silent [OF assms])
  next
    fix b e assume "base64Audio m = Some b" "b \<noteq> []" "dec b = Inl (e :: decode_error)"
    then show ?thesis by (simp add: n turn_failed [where dec = dec, OF assms])
  qed
next
  fix b buf assume "decodes_to dec m = Some buf" "base64Audio m = Some b" "b \<noteq> []"
    "dec b = Inr (buf :: audio_buffer)"
  then show ?thesis by (simp add: turn_scheduled [where dec = dec, OF assms])
qed

lemma in_turn_started:
  assumes "outputAudioContext s = Some ctx" and "pending s = []"
  shows "map buffer (started (snd (run_schedule add dec (in_turn evs) s))) =
           List.map_filter (\<lambda>ev. decodes_to dec (snd ev)) evs"
  using assms
proof (induction evs arbitrary: s)
  case Nil
  then show ?case by (simp add: List.map_filter_simps)
next
  case (Cons ev evs)
  obtain t m where ev: "ev = (t, m)" by (cases ev)
  let ?s1 = "fst (turn add dec t m s)"
  have c1: "outputAudioContext ?s1 = Some ctx"
    using turn_keeps(2) [OF Cons.prems(2), of add dec t m] Cons.prems(1) by simp
  have p1: "pending ?s1 = []" using turn_keeps(1) [OF Cons.prems(2)] .
  show ?case
    using Cons.IH [OF c1 p1] turn_started [OF Cons.prems, of add dec t m]
    by (simp only: ev in_turn_step)
      (simp add: started_append List.map_filter_simps split: option.splits)
qed

lemma run_around_arrival:
  "snd (run_schedule add dec (xs @ Arrive t m # ys) s) =
     snd (run_schedule add dec xs s)
     @ snd (handleServerMessage t m (fst (run_schedule add dec xs s)))
     @ snd (run_schedule add dec ys
         (fst (handleServerMessage t m (fst (run_schedule add dec xs s)))))"
  by (simp add: run_append split_beta)

text \<open>
  Claim C3, as the code has it. Nothing puts the calls of the handler in a queue. When
  the decode of every message settles before the next message arrives, the chunks are
  scheduled in the order of their arrival. In every interleaving the effects of a
  message's arrival come after those of all steps before it and before those of all
  steps after it; an interruption that arrives on a message without audio has taken
  effect there, with every source stopped, the set empty and the cursor at 0, before any
  chunk that arrives after it is scheduled. A message that carries audio does nothing at
  its arrival but raise the cursor to the clock and suspend; its chunk is scheduled, and
  its interruption takes effect, only when its decode settles, whichever messages have
  arrived or settled in between.
\<close>

theorem arrival_order_in_turn:
  assumes "session_inv s"
  shows "(outputAudioContext s \<noteq> None \<and> pending s = [] \<longrightarrow>
            map buffer (started (snd (run_schedule add dec (in_turn evs) s))) =
              List.map_filter (\<lambda>ev. decodes_to dec (snd ev)) evs)
       \<and> snd (run_schedule add dec (xs @ Arrive t m # ys) s) =
           snd (run_schedule add dec xs s)
           @ snd (handleServerMessage t m (fst (run_schedule add dec xs s)))
           @ snd (run_schedule add dec ys
               (fst (handleServerMessage t m (fst (run_schedule add dec xs s)))))
       \<and> (is_interrupted m \<and> (base64Audio m = None \<or> base64Audio m = Some []) \<longrightarrow>
            sources (fst (handleServerMessage t m (fst (run_schedule add dec xs s)))) = []
            \<and> nextStartTime (fst (handleServerMessage t m (fst (run_schedule add dec xs s)))) = 0
            \<and> set (map node_id (sources (fst (run_schedule add dec xs s))))
                 \<subseteq> set (stopped (snd (handleServerMessage t m (fst (run_schedule add dec xs s))))))
       \<and> (outputAudioContext s \<noteq> None \<and> base64Audio m = Some b \<and> b \<noteq> [] \<longrightarrow>
            handleServerMessage t m s =
              ((raise_cursor t s)\<lparr>pending := pending s @ [\<lparr>act_audio = b, act_message = m\<rparr>]\<rparr>, []))
       \<and> (k < length (pending s) \<and> is_interrupted (act_message (pending s ! k)) \<longrightarrow>
            sources (fst (handleServerMessage_resume add dec k s)) = []
            \<and> nextStartTime (fst (handleServerMessage_resume add dec k s)) = 0
            \<and> set (map node_id (sources s))
                 \<subseteq> set (stopped (snd (handleServerMessage_resume add dec k s))))"
proof (intro conjI impI)
  assume a: "outputAudioContext s \<noteq> None \<and> pending s = []"
  then obtain ctx where ctx: "outputAudioContext s = Some ctx" and p: "pending s = []" by auto
  show "map buffer (started (snd (run_schedule add dec (in_turn evs) s))) =
          List.map_filter (\<lambda>ev. decodes_to dec (snd ev)) evs"
    using in_turn_started [OF ctx p] .
next
  show "snd (run_schedule add dec (xs @ Arrive t m # ys) s) =
           snd (run_schedule add dec xs s)
           @ snd (handleServerMessage t m (fst (run_schedule add dec xs s)))
           @ snd (run_schedule add dec ys
               (fst (handleServerMessage t m (fst (run_schedule add dec xs s)))))"
    using run_around_arrival .
next
  assume a: "is_interrupted m \<and> (base64Audio m = None \<or> base64Audio m = Some [])"
  then have i: "is_interrupted m" and q: "base64Audio m = None \<or> base64Audio m = Some []"
    by simp_all
  have inv: "session_inv (fst (run_schedule add dec xs s))"
    using inv_run [OF assms] .
  show "sources (fst (handleServerMessage t m (fst (run_schedule add dec xs s)))) = []"
    using interruption_at_arrival(1) [OF inv i q] .
  show "nextStartTime (fst (handleServerMessage t m (fst (run_schedule add dec xs s)))) = 0"
    using interruption_at_arrival(2) [OF inv i q] .
  show "set (map node_id (sources (fst (run_schedule add dec xs s))))
          \<subseteq> set (stopped (snd (handleServerMessage t m (fst (run_schedule add dec xs s)))))"
    using interruption_at_arrival(4) [OF inv i q] .
next
  assume "outputAudioContext s \<noteq> None \<and> base64Audio m = Some b \<and> b \<noteq> []"
  then obtain ctx where "outputAudioContext s = Some ctx" "base64Audio m = Some b" "b \<noteq> []"
    by auto
  then show "handleServerMessage t m s =
      ((raise_cursor t s)\<lparr>pending := pending s @ [\<lparr>act_audio = b, act_message = m\<rparr>]\<rparr>, [])"
    by (rule call_suspended)
next
  assume a: "k < length (pending s) \<and> is_interrupted (act_message (pending s ! k))"
  then have k: "k < length (pending s)" and i: "is_interrupted (act_message (pending s ! k))"
    by simp_all
  show "sources (fst (handleServerMessage_resume add dec k s)) = []"
    using interruption_at_settling(1) [OF k i] .
  show "nextStartTime (fst (handleServerMessage_resume add dec k s)) = 0"
    using interruption_at_settling(2) [OF k i] .
  show "set (map node_id (sources s))
          \<subseteq> set (stopped (snd (handleServerMessage_resume add dec k s)))"
    using interruption_at_settling(4) [OF k i] .
qed

theorem arrival_order_in_turn_witness:
  "session_inv streaming_session \<and> outputAudioContext streaming_session \<noteq> None
   \<and> pending streaming_session = []
   \<and> map buffer (started (snd (run_schedule (+) example_decode (in_turn three_chunks)
        streaming_session))) =
       [\<lparr>duration = 1, samples = []\<rparr>, \<lparr>duration = 1 / 2, samples = []\<rparr>,
        \<lparr>duration = 2, samples = []\<rparr>]
   \<and> is_interrupted (plain_message True) \<and> base64Audio (plain_message True) = None
   \<and> base64Audio (audio_message ''A'' True) = Some ''A'' \<and> ''A'' \<noteq> []
   \<and> snd (handleServerMessage 0 (audio_message ''A'' True) streaming_session) = []
   \<and> session_inv suspended_session
   \<and> is_interrupted (act_message (pending suspended_session ! 0))
   \<and> nextStartTime (fst (handleServerMessage_resume (+) example_decode 0 suspended_session)) = 0
   \<and> snd (run_schedule (+) example_decode barge_in_between streaming_session) =
       [SourceStart \<lparr>node_id = 0, buffer = \<lparr>duration = 2, samples = []\<rparr>, gain_value = 12 / 10\<rparr> 0,
        SourceStop 0,
        SourceStart \<lparr>node_id = 1, buffer = \<lparr>duration = 1, samples = []\<rparr>, gain_value = 12 / 10\<rparr>
          (1 / 2)]"
proof -
  have inv: "session_inv streaming_session"
    by (simp add: session_inv_def example_defs)
  have ctx: "outputAudioContext streaming_session \<noteq> None"
    by (simp add: example_defs)
  have p: "pending streaming_session = []"
    by (simp add: example_defs)
  have int: "is_interrupted (plain_message True)"
    by (simp add: example_defs)
  have none: "base64Audio (plain_message True) = None"
    by (simp add: example_defs)
  have d: "List.map_filter (\<lambda>ev. decodes_to example_decode (snd ev)) three_chunks =
       [\<lparr>duration = 1, samples = []\<rparr>, \<lparr>duration = 1 / 2, samples = []\<rparr>,
        \<lparr>duration = 2, samples = []\<rparr>]"
    by (simp add: three_chunks_def List.map_filter_simps decodes_to_def example_defs)
  note inst = arrival_order_in_turn [OF inv, where evs = three_chunks and add = "(+)"
      and dec = example_decode and xs = "[Arrive 0 (audio_message ''C'' False), Settle 0]"
      and t = "1 / 2" and m = "plain_message True"
      and ys = "[Arrive (1 / 2) (audio_message ''A'' False), Settle 0]"]
  have au: "base64Audio (audio_message ''A'' True) = Some ''A''"
    by (simp add: example_defs)
  have ne: "''A'' \<noteq> []" by simp
  have f: "snd (handleServerMessage 0 (audio_message ''A'' True) streaming_session) = []"
    using arrival_order_in_turn [OF inv, where m = "audio_message ''A'' True" and b = "''A''"
        and t = 0] ctx au ne
    by simp
  have inv2: "session_inv suspended_session"
    by (simp add: session_inv_def suspended_session_def example_defs)
  have k: "0 < length (pending suspended_session)"
    by (simp add: suspended_session_def)
  have int2: "is_interrupted (act_message (pending suspended_session ! 0))"
    by (simp add: suspended_session_def example_defs)
  have g: "nextStartTime (fst (handleServerMessage_resume (+) example_decode 0 suspended_session))
      = 0"
    using arrival_order_in_turn [OF inv2, where k = 0 and add = "(+)" and dec = example_decode]
      k int2
    by blast
  have a: "map buffer (started (snd (run_schedule (+) example_decode (in_turn three_chunks)
        streaming_session))) =
       List.map_filter (\<lambda>ev. decodes_to example_decode (snd ev)) three_chunks"
    using inst ctx p by blast
  have b: "sources (fst (handleServerMessage (1 / 2) (plain_message True)
       (fst (run_schedule (+) example_decode [Arrive 0 (audio_message ''C'' False), Settle 0]
          streaming_session)))) = []"
    using inst int none by blast
  have e: "snd (run_schedule (+) example_decode barge_in_between streaming_session) =
       [SourceStart \<lparr>node_id = 0, buffer = \<lparr>duration = 2, samples = []\<rparr>, gain_value = 12 / 10\<rparr> 0,
        SourceStop 0,
        SourceStart \<lparr>node_id = 1, buffer = \<lparr>duration = 1, samples = []\<rparr>, gain_value = 12 / 10\<rparr>
          (1 / 2)]"
    by (simp add: barge_in_between_def handler_defs example_defs)
  show ?thesis
    using inv ctx p a b d int none e au f inv2 int2 g by simp
qed

text \<open>
  Of two chunks the later one is scheduled first when its decode settles first: the
  buffers in the order they are started, and in the order they arrived. And when the
  first of the two messages is flagged as interrupted, the chunk that arrived after the
  interruption is started before the interruption takes effect, and is stopped by it.
\<close>

theorem later_chunk_scheduled_first:
  "map buffer (started (snd (run_schedule (+) example_decode second_settles_first
     streaming_session))) =
     [\<lparr>duration = 1 / 2, samples = []\<rparr>, \<lparr>duration = 1, samples = []\<rparr>]
   \<and> List.map_filter (\<lambda>x. case x of Arrive t m \<Rightarrow> decodes_to example_decode m | Settle k \<Rightarrow> None)
        second_settles_first =
     [\<lparr>duration = 1, samples = []\<rparr>, \<lparr>duration = 1 / 2, samples = []\<rparr>]
   \<and> snd (run_schedule (+) example_decode flagged_chunk_overtaken streaming_session) =
     [SourceStart \<lparr>node_id = 0, buffer = \<lparr>duration = 1 / 2, samples = []\<rparr>, gain_value = 12 / 10\<rparr> 0,
      SourceStart \<lparr>node_id = 1, buffer = \<lparr>duration = 1, samples = []\<rparr>, gain_value = 12 / 10\<rparr>
        (1 / 2),
      SourceStop 0, SourceStop 1]"
  by (simp add: second_settles_first_def flagged_chunk_overtaken_def handler_defs example_defs
      decodes_to_def List.map_filter_simps)

section \<open>The ways a session ends\<close>

lemma exit_user_stop: "exit_session throws UserStop s = disconnect throws s"
  by (simp add: exit_session_def)

text \<open>
  Claim C8, as the code has it. Of the three ways a session ends only the user's stop
  runs \<open>disconnect\<close>. When none of its browser calls throws, it performs every cleanup
  step, in order, whatever state the contexts and the session promise are in: a context
  that is closed already, a rejected session promise or a session without \<open>close\<close> skips
  nothing. The calls of lines 295 to 302 are not shielded from each other: should one of
  them throw, the effects are those of the calls before it, the method ends with that
  exception, and the close of the Transport is not chained. When the Transport reports a
  close or an error, the observers are told and nothing else happens: no track is
  stopped, the capture graph stays connected, no context is closed and no close of the
  Transport is chained.
\<close>

theorem teardown_on_exit:
  "((\<forall>c \<in> set (teardown_calls s). \<not> throws c) \<longrightarrow>
      exit_session throws UserStop s =
        (None, contexts_closed (fst (chain_on_promise CloseReaction s)), teardown_effects s))
   \<and> (teardown_calls s = xs @ c # ys \<and> throws c \<longrightarrow>
      fst (exit_session throws UserStop s) \<noteq> None
      \<and> snd (snd (exit_session throws UserStop s)) = snd (snd (run_calls throws xs s))
      \<and> sessionPromise (fst (snd (exit_session throws UserStop s))) = sessionPromise s)
   \<and> exit_session throws RemoteClose s = (None, s, [NotifyClose])
   \<and> exit_session throws TransportError s =
       (None, s, [ConsoleError ''Gemini Live Error'', NotifyError ''Connection error''])"
proof (intro conjI impI)
  assume a: "\<forall>c \<in> set (teardown_calls s). \<not> throws c"
  show "exit_session throws UserStop s =
        (None, contexts_closed (fst (chain_on_promise CloseReaction s)), teardown_effects s)"
    by (simp add: exit_user_stop disconnect_clean [OF a])
next
  assume b: "teardown_calls s = xs @ c # ys \<and> throws c"
  then have b1: "teardown_calls s = xs @ c # ys" and b2: "throws c" by simp_all
  show "fst (exit_session throws UserStop s) \<noteq> None"
    using disconnect_thrown(1) [where throws = throws and c = c, OF b1 b2]
    by (simp add: exit_user_stop)
  show "snd (snd (exit_session throws UserStop s)) = snd (snd (run_calls throws xs s))"
    using disconnect_thrown(2) [where throws = throws and c = c, OF b1 b2]
    by (simp add: exit_user_stop)
  show "sessionPromise (fst (snd (exit_session throws UserStop s))) = sessionPromise s"
    using disconnect_thrown(3) [where throws = throws and c = c, OF b1 b2]
    by (simp add: exit_user_stop)
next
  show "exit_session throws RemoteClose s = (None, s, [NotifyClose])"
    by (simp add: exit_session_def onclose_def)
next
  show "exit_session throws TransportError s =
       (None, s, [ConsoleError ''Gemini Live Error'', NotifyError ''Connection error''])"
    by (simp add: exit_session_def onerror_def)
qed

theorem teardown_on_exit_witness:
  "list_all (\<lambda>c. \<not> never c) (teardown_calls capturing_session)
   \<and> fst (exit_session never UserStop capturing_session) = None
   \<and> snd (snd (exit_session never UserStop capturing_session)) =
       [TrackStop 0, GraphDisconnect 0, ContextClose InputContext Running,
        ContextClose OutputContext Running, TransportClose]
   \<and> teardown_calls capturing_session =
       [TrackStopCall 0] @ CleanupCall 0 #
         [ContextCloseCall InputContext, ContextCloseCall OutputContext]
   \<and> cleanup_throws (CleanupCall 0)
   \<and> fst (exit_session cleanup_throws UserStop capturing_session) \<noteq> None
   \<and> snd (snd (exit_session cleanup_throws UserStop capturing_session)) = [TrackStop 0]
   \<and> snd (snd (exit_session never RemoteClose capturing_session)) = [NotifyClose]"
proof -
  have a: "\<forall>c \<in> set (teardown_calls capturing_session). \<not> never c"
    by (simp add: never_def)
  have e1: "teardown_effects capturing_session =
       [TrackStop 0, GraphDisconnect 0, ContextClose InputContext Running,
        ContextClose OutputContext Running, TransportClose]"
    by (simp add: teardown_effects_def teardown_defs)
  have c: "teardown_calls capturing_session =
       [TrackStopCall 0] @ CleanupCall 0 #
         [ContextCloseCall InputContext, ContextCloseCall OutputContext]"
    by (simp add: teardown_defs)
  have t: "cleanup_throws (CleanupCall 0)"
    by (simp add: cleanup_throws_def)
  have r: "snd (snd (run_calls cleanup_throws [TrackStopCall 0] capturing_session)) = [TrackStop 0]"
    by (simp add: cleanup_throws_def)
  show ?thesis
    using teardown_on_exit [of capturing_session never "[TrackStopCall 0]" "CleanupCall 0"
        "[ContextCloseCall InputContext, ContextCloseCall OutputContext]"]
      teardown_on_exit [of capturing_session cleanup_throws "[TrackStopCall 0]" "CleanupCall 0"
        "[ContextCloseCall InputContext, ContextCloseCall OutputContext]"]
      a e1 c t r
    by (simp add: list_all_iff)
qed

text \<open>
  A session that is capturing: after a close or an error reported by the Transport the
  session is as it was and none of its five cleanup steps has been performed.
\<close>

theorem remote_close_releases_nothing:
  "exit_session never RemoteClose capturing_session = (None, capturing_session, [NotifyClose])
   \<and> exit_session never TransportError capturing_session =
       (None, capturing_session,
        [ConsoleError ''Gemini Live Error'', NotifyError ''Connection error''])
   \<and> teardown_effects capturing_session =
       [TrackStop 0, GraphDisconnect 0, ContextClose InputContext Running,
        ContextClose OutputContext Running, TransportClose]"
  by (simp add: exit_session_def onclose_def onerror_def teardown_effects_def teardown_defs)

section \<open>Decode failure\<close>

lemma raise_cursor_twice: "t0 \<le> t \<Longrightarrow> raise_cursor t (raise_cursor t0 s) = raise_cursor t s"
  by (simp add: raise_cursor_def max_def)

lemma interruption_raised:
  "handle_interruption m (raise_cursor t0 s) =
     (if is_interrupted m then handle_interruption m s else (raise_cursor t0 s, []))"
  by (simp add: handle_interruption_def raise_cursor_def)

lemma raise_cursor_turn:
  assumes "t0 \<le> t" and "pending s = []"
  shows "snd (turn add dec t m (raise_cursor t0 s)) = snd (turn add dec t m s)
       \<and> (fst (turn add dec t m (raise_cursor t0 s)) = fst (turn add dec t m s)
          \<or> fst (turn add dec t m (raise_cursor t0 s)) = raise_cursor t0 (fst (turn add dec t m s)))"
proof -
  have p: "pending (raise_cursor t0 s) = []" using assms(2) by simp
  have n: "max (max (nextStartTime s) t0) t = max (nextStartTime s) t"
    using assms(1) by simp
  show ?thesis
  proof (rule turn_cases [OF assms(2), of add dec t m])
    assume c: "outputAudioContext s = None"
    then have c': "outputAudioContext (raise_cursor t0 s) = None" by simp
    show ?thesis
      by (simp add: turn_without_context [OF c assms(2)] turn_without_context [OF c' p])
  next
    fix ctx assume c: "outputAudioContext s = Some ctx"
      and q: "base64Audio m = None \<or> base64Audio m = Some []"
    have c': "outputAudioContext (raise_cursor t0 s) = Some ctx" using c by simp
    show ?thesis
      by (simp add: turn_silent [OF c assms(2) q] turn_silent [OF c' p q] interruption_raised interruption_off)
  next
    fix ctx b e assume c: "outputAudioContext s = Some ctx"
      and b: "base64Audio m = Some b" "b \<noteq> []" and d: "dec b = Inl (e :: decode_error)"
    have c': "outputAudioContext (raise_cursor t0 s) = Some ctx" using c by simp
    show ?thesis
      by (simp add: turn_failed [where dec = dec, OF c assms(2) b d]
          turn_failed [where dec = dec, OF c' p b d] raise_cursor_twice [OF assms(1)])
  next
    fix ctx b buf assume c: "outputAudioContext s = Some ctx"
      and b: "base64Audio m = Some b" "b \<noteq> []" and d: "dec b = Inr (buf :: audio_buffer)"
    have c': "outputAudioContext (raise_cursor t0 s) = Some ctx" using c by simp
    show ?thesis
      by (simp add: turn_scheduled [where dec = dec, OF c assms(2) b d]
          turn_scheduled [where dec = dec, OF c' p b d] raise_cursor_twice [OF assms(1)] n)
  qed
qed

lemma raise_cursor_in_turn:
  assumes "\<forall>ev \<in> set evs. t0 \<le> fst ev" and "pending s = []"
  shows "snd (run_schedule add dec (in_turn evs) (raise_cursor t0 s)) =
           snd (run_schedule add dec (in_turn evs) s)
       \<and> (fst (run_schedule add dec (in_turn evs) (raise_cursor t0 s)) =
            fst (run_schedule add dec (in_turn evs) s)
          \<or> fst (run_schedule add dec (in_turn evs) (raise_cursor t0 s)) =
               raise_cursor t0 (fst (run_schedule add dec (in_turn evs) s)))"
  using assms
proof (induction evs arbitrary: s)
  case Nil
  then show ?case by simp
next
  case (Cons ev evs)
  obtain t m where ev: "ev = (t, m)" by (cases ev)
  have le: "t0 \<le> t" using Cons.prems ev by simp
  have rest: "\<forall>ev \<in> set evs. t0 \<le> fst ev" using Cons.prems by simp
  let ?a = "turn add dec t m (raise_cursor t0 s)"
  let ?b = "turn add dec t m s"
  have pb: "pending (fst ?b) = []" using turn_keeps(1) [OF Cons.prems(2)] .
  have e: "snd ?a = snd ?b" using raise_cursor_turn [OF le Cons.prems(2)] by blast
  have "fst ?a = fst ?b \<or> fst ?a = raise_cursor t0 (fst ?b)"
    using raise_cursor_turn [OF le Cons.prems(2)] by blast
  then show ?case
  proof
    assume "fst ?a = fst ?b"
    then show ?thesis using e by (simp only: ev in_turn_step) simp
  next
    assume r: "fst ?a = raise_cursor t0 (fst ?b)"
    show ?thesis
      using Cons.IH [OF rest pb] e by (simp only: ev in_turn_step) (simp add: r)
  qed
qed

lemma without_audio_payload [simp]: "base64Audio (without_audio m) = None"
  by (simp add: without_audio_def base64Audio_def split: option.splits)

lemma without_audio_interrupted [simp]: "is_interrupted (without_audio m) = is_interrupted m"
  by (simp add: without_audio_def is_interrupted_def split: option.splits)

lemma without_audio_interruption [simp]:
  "handle_interruption (without_audio m) s = handle_interruption m s"
  by (simp add: handle_interruption_def)

lemma turn_unheard:
  assumes "pending s = []"
  shows "turn add dec t (without_audio m) s =
           (if outputAudioContext s = None then (s, []) else handle_interruption m s)"
proof (cases "outputAudioContext s")
  case None
  then show ?thesis by (simp add: turn_without_context [OF None assms])
next
  case (Some ctx)
  have q: "base64Audio (without_audio m) = None \<or> base64Audio (without_audio m) = Some []"
    by simp
  show ?thesis by (simp add: turn_silent [OF Some assms q] Some)
qed

lemma failed_turn:
  assumes "base64Audio m = Some b" and "b \<noteq> []" and "dec b = Inl (e :: decode_error)"
      and "pending s = []"
  shows "started (snd (turn add dec t m s)) = []"
    and "fst (turn add dec t m s) = fst (turn add dec t (without_audio m) s)
         \<or> fst (turn add dec t m s) = raise_cursor t (fst (turn add dec t (without_audio m) s))"
proof -
  show "started (snd (turn add dec t m s)) = []"
  proof (cases "outputAudioContext s")
    case None
    then show ?thesis by (simp add: turn_without_context [OF None assms(4)])
  next
    case (Some ctx)
    show ?thesis
      by (simp add: turn_failed [where dec = dec, OF Some assms(4) assms(1-3)])
  qed
  show "fst (turn add dec t m s) = fst (turn add dec t (without_audio m) s)
         \<or> fst (turn add dec t m s) = raise_cursor t (fst (turn add dec t (without_audio m) s))"
  proof (cases "outputAudioContext s")
    case None
    then show ?thesis by (simp add: turn_without_context [OF None assms(4)])
  next
    case (Some ctx)
    show ?thesis
      by (simp add: turn_failed [where dec = dec, OF Some assms(4) assms(1-3)]
          turn_unheard [OF assms(4)] Some interruption_raised interruption_off)
  qed
qed

lemma failed_settles:
  assumes "k < length (pending s)" and "dec (act_audio (pending s ! k)) = Inl (e :: decode_error)"
  shows "handleServerMessage_resume add dec k s =
           (fst (handle_interruption (act_message (pending s ! k)) (drop_activation k s)),
            ConsoleError ''Error decoding audio''
            # snd (handle_interruption (act_message (pending s ! k)) (drop_activation k s)))"
  using assms(2)
  by (simp add: resume_present [OF assms(1)] output_failed [where dec = dec])

lemma scheduled_settles:
  assumes "k < length (pending s)" and "dec (act_audio (pending s ! k)) = Inr (buf :: audio_buffer)"
      and "outputAudioContext s = Some ctx"
  shows "handleServerMessage_resume add dec k s =
           (fst (handle_interruption (act_message (pending s ! k))
              (schedule_source add buf (drop_activation k s))),
            SourceStart \<lparr>node_id = next_node s, buffer = buf, gain_value = 12 / 10\<rparr> (nextStartTime s)
            # snd (handle_interruption (act_message (pending s ! k))
                (schedule_source add buf (drop_activation k s))))"
proof -
  have c: "outputAudioContext (drop_activation k s) = Some ctx" using assms(3) by simp
  show ?thesis
    using assms(2)
    by (simp add: resume_present [OF assms(1)] output_scheduled [where dec = dec, OF _ c])
qed

text \<open>
  Claim C5, as the code has it. A message whose payload does not decode does, at its
  arrival, what every message with audio does: the cursor is raised to the clock and the
  call is suspended. When its decode settles with the failure, in whatever interleaving,
  the error is logged and the call is gone: no source is started or stopped, and the
  cursor, the set of sources, the contexts and every other suspended call are as they
  were, unless the message itself is flagged as interrupted, which then takes effect as
  for any message. Everything that happens afterwards happens as from the state in which
  the failed call never was suspended. A chunk that is suspended at that moment and
  decodes is started at the cursor, untouched by the failure.

  When the calls do not overlap, the chunks of the later messages are started in the
  order of their arrival, and under a clock that does not run backwards every later
  message has exactly the effects it has when the failed message carried no audio at
  all, the state after them being the same or differing only in a cursor raised to the
  clock reading of the failed chunk. Nothing keeps that order when the calls overlap.
\<close>

theorem decode_failure_dropped:
  assumes "base64Audio m = Some b" and "b \<noteq> []" and "dec b = Inl (e :: decode_error)"
  shows "(outputAudioContext s \<noteq> None \<longrightarrow>
            handleServerMessage t m s =
              ((raise_cursor t s)\<lparr>pending := pending s @ [\<lparr>act_audio = b, act_message = m\<rparr>]\<rparr>, []))
       \<and> (k < length (pending s) \<and> pending s ! k = \<lparr>act_audio = b, act_message = m\<rparr> \<longrightarrow>
            run_schedule add dec (Settle k # xs) s =
              (fst (run_schedule add dec xs (fst (handle_interruption m (drop_activation k s)))),
               ConsoleError ''Error decoding audio''
               # snd (handle_interruption m (drop_activation k s))
               @ snd (run_schedule add dec xs (fst (handle_interruption m (drop_activation k s))))))
       \<and> (k < length (pending s) \<and> pending s ! k = \<lparr>act_audio = b, act_message = m\<rparr>
            \<and> \<not> is_interrupted m \<longrightarrow>
            handleServerMessage_resume add dec k s =
              (drop_activation k s, [ConsoleError ''Error decoding audio'']))
       \<and> (k < length (pending s) \<and> pending s ! k = \<lparr>act_audio = b, act_message = m\<rparr>
            \<and> \<not> is_interrupted m \<and> outputAudioContext s \<noteq> None
            \<and> j < length (pending (drop_activation k s))
            \<and> dec (act_audio (pending (drop_activation k s) ! j)) = Inr buf \<longrightarrow>
            start_times (snd (run_schedule add dec [Settle k, Settle j] s)) = [nextStartTime s]
            \<and> started (snd (run_schedule add dec [Settle k, Settle j] s)) =
                [\<lparr>node_id = next_node s, buffer = buf, gain_value = 12 / 10\<rparr>])
       \<and> (outputAudioContext s \<noteq> None \<and> pending s = [] \<longrightarrow>
            turn add dec t m s =
              (fst (handle_interruption m (raise_cursor t s)),
               ConsoleError ''Error decoding audio'' # snd (handle_interruption m (raise_cursor t s)))
            \<and> map buffer (started (snd (run_schedule add dec (in_turn evs)
                  (fst (turn add dec t m s))))) =
                List.map_filter (\<lambda>ev. decodes_to dec (snd ev)) evs)
       \<and> (pending s = [] \<and> (\<forall>ev \<in> set evs. t \<le> fst ev) \<longrightarrow>
            started (snd (turn add dec t m s)) = []
            \<and> snd (run_schedule add dec (in_turn evs) (fst (turn add dec t m s))) =
                snd (run_schedule add dec (in_turn evs) (fst (turn add dec t (without_audio m) s)))
            \<and> (fst (run_schedule add dec (in_turn evs) (fst (turn add dec t m s))) =
                 fst (run_schedule add dec (in_turn evs) (fst (turn add dec t (without_audio m) s)))
               \<or> fst (run_schedule add dec (in_turn evs) (fst (turn add dec t m s))) =
                   raise_cursor t
                     (fst (run_schedule add dec (in_turn evs)
                        (fst (turn add dec t (without_audio m) s))))))"
proof (intro conjI impI)
  assume "outputAudioContext s \<noteq> None"
  then obtain ctx where ctx: "outputAudioContext s = Some ctx" by auto
  show "handleServerMessage t m s =
      ((raise_cursor t s)\<lparr>pending := pending s @ [\<lparr>act_audio = b, act_message = m\<rparr>]\<rparr>, [])"
    using call_suspended [OF ctx assms(1,2)] .
next
  assume a: "k < length (pending s) \<and> pending s ! k = \<lparr>act_audio = b, act_message = m\<rparr>"
  then have k: "k < length (pending s)" and d: "dec (act_audio (pending s ! k)) = Inl e"
    and am: "act_message (pending s ! k) = m"
    using assms(3) by simp_all
  show "run_schedule add dec (Settle k # xs) s =
      (fst (run_schedule add dec xs (fst (handle_interruption m (drop_activation k s)))),
       ConsoleError ''Error decoding audio''
       # snd (handle_interruption m (drop_activation k s))
       @ snd (run_schedule add dec xs (fst (handle_interruption m (drop_activation k s)))))"
    using failed_settles [where dec = dec, OF k d, of add] am
    by (simp add: split_beta)
next
  assume a: "k < length (pending s) \<and> pending s ! k = \<lparr>act_audio = b, act_message = m\<rparr>
      \<and> \<not> is_interrupted m"
  then have k: "k < length (pending s)" and d: "dec (act_audio (pending s ! k)) = Inl e"
    and am: "act_message (pending s ! k) = m" and i: "\<not> is_interrupted m"
    using assms(3) by simp_all
  show "handleServerMessage_resume add dec k s =
      (drop_activation k s, [ConsoleError ''Error decoding audio''])"
    using failed_settles [where dec = dec, OF k d, of add] am
    by (simp add: interruption_off [OF i])
next
  assume a: "k < length (pending s) \<and> pending s ! k = \<lparr>act_audio = b, act_message = m\<rparr>
      \<and> \<not> is_interrupted m \<and> outputAudioContext s \<noteq> None
      \<and> j < length (pending (drop_activation k s))
      \<and> dec (act_audio (pending (drop_activation k s) ! j)) = Inr buf"
  then have k: "k < length (pending s)" and d: "dec (act_audio (pending s ! k)) = Inl e"
    and am: "act_message (pending s ! k) = m" and i: "\<not> is_interrupted m"
    using assms(3) by simp_all
  from a have j: "j < length (pending (drop_activation k s))"
    and dj: "dec (act_audio (pending (drop_activation k s) ! j)) = Inr buf"
    by blast+
  from a obtain ctx where "outputAudioContext s = Some ctx" by auto
  then have ctx: "outputAudioContext (drop_activation k s) = Some ctx" by simp
  have r: "handleServerMessage_resume add dec k s =
      (drop_activation k s, [ConsoleError ''Error decoding audio''])"
    using failed_settles [where dec = dec, OF k d, of add] am
    by (simp add: interruption_off [OF i])
  have q: "snd (run_schedule add dec [Settle k, Settle j] s) =
      ConsoleError ''Error decoding audio''
      # snd (handleServerMessage_resume add dec j (drop_activation k s))"
    by (simp add: r split_beta)
  show "start_times (snd (run_schedule add dec [Settle k, Settle j] s)) = [nextStartTime s]"
    by (simp only: q scheduled_settles [where dec = dec, OF j dj ctx]) simp
  show "started (snd (run_schedule add dec [Settle k, Settle j] s)) =
      [\<lparr>node_id = next_node s, buffer = buf, gain_value = 12 / 10\<rparr>]"
    by (simp only: q scheduled_settles [where dec = dec, OF j dj ctx]) simp
next
  assume a: "outputAudioContext s \<noteq> None \<and> pending s = []"
  then obtain ctx where ctx: "outputAudioContext s = Some ctx" and p: "pending s = []" by auto
  show "turn add dec t m s =
      (fst (handle_interruption m (raise_cursor t s)),
       ConsoleError ''Error decoding audio'' # snd (handle_interruption m (raise_cursor t s)))"
    using turn_failed [where dec = dec, OF ctx p assms] .
  have c1: "outputAudioContext (fst (turn add dec t m s)) = Some ctx"
    using turn_keeps(2) [OF p, of add dec t m] ctx by simp
  have p1: "pending (fst (turn add dec t m s)) = []" using turn_keeps(1) [OF p] .
  show "map buffer (started (snd (run_schedule add dec (in_turn evs) (fst (turn add dec t m s))))) =
      List.map_filter (\<lambda>ev. decodes_to dec (snd ev)) evs"
    using in_turn_started [OF c1 p1] .
next
  assume a: "pending s = [] \<and> (\<forall>ev \<in> set evs. t \<le> fst ev)"
  then have p: "pending s = []" and le: "\<forall>ev \<in> set evs. t \<le> fst ev" by simp_all
  let ?f = "fst (turn add dec t m s)"
  let ?r = "fst (turn add dec t (without_audio m) s)"
  have pr: "pending ?r = []" using turn_keeps(1) [OF p] .
  show "started (snd (turn add dec t m s)) = []"
    using failed_turn(1) [where dec = dec, OF assms p] .
  have c: "?f = ?r \<or> ?f = raise_cursor t ?r"
    using failed_turn(2) [where dec = dec, OF assms p] .
  show "snd (run_schedule add dec (in_turn evs) ?f) = snd (run_schedule add dec (in_turn evs) ?r)"
    using c raise_cursor_in_turn [OF le pr, of add dec] by auto
  show "fst (run_schedule add dec (in_turn evs) ?f) = fst (run_schedule add dec (in_turn evs) ?r)
      \<or> fst (run_schedule add dec (in_turn evs) ?f) =
          raise_cursor t (fst (run_schedule add dec (in_turn evs) ?r))"
    using c raise_cursor_in_turn [OF le pr, of add dec] by auto
qed

text \<open>
  A payload that does not decode arrives at 0.5 on an idle session, two good chunks at
  time 1: they start at 1 and 2, as they do without the failed one. And in a session
  that plays up to time 2, with the failed call and a good chunk suspended, the failure
  is logged and the good chunk starts at 2.
\<close>

theorem decode_failure_dropped_witness:
  "base64Audio (audio_message ''X'' False) = Some ''X'' \<and> ''X'' \<noteq> []
   \<and> example_decode ''X'' = Inl DecodeError
   \<and> outputAudioContext streaming_session \<noteq> None \<and> pending streaming_session = []
   \<and> list_all (\<lambda>ev. 1 / 2 \<le> fst ev) failing_then_two
   \<and> snd (handleServerMessage (1 / 2) (audio_message ''X'' False) streaming_session) = []
   \<and> turn (+) example_decode (1 / 2) (audio_message ''X'' False) streaming_session =
       (raise_cursor (1 / 2) streaming_session, [ConsoleError ''Error decoding audio''])
   \<and> map buffer (started (snd (run_schedule (+) example_decode (in_turn failing_then_two)
        (fst (turn (+) example_decode (1 / 2) (audio_message ''X'' False) streaming_session))))) =
       [\<lparr>duration = 1, samples = []\<rparr>, \<lparr>duration = 1 / 2, samples = []\<rparr>]
   \<and> start_times (snd (run_schedule (+) example_decode (in_turn failing_then_two)
        (fst (turn (+) example_decode (1 / 2) (audio_message ''X'' False) streaming_session)))) =
       [1, 2]
   \<and> start_times (snd (run_schedule (+) example_decode (in_turn failing_then_two)
        (fst (turn (+) example_decode (1 / 2) (without_audio (audio_message ''X'' False))
           streaming_session)))) = [1, 2]
   \<and> 0 < length (pending failed_pending_session)
   \<and> pending failed_pending_session ! 0 =
       \<lparr>act_audio = ''X'', act_message = audio_message ''X'' False\<rparr>
   \<and> \<not> is_interrupted (audio_message ''X'' False)
   \<and> outputAudioContext failed_pending_session \<noteq> None
   \<and> 0 < length (pending (drop_activation 0 failed_pending_session))
   \<and> example_decode (act_audio (pending (drop_activation 0 failed_pending_session) ! 0)) =
       Inr \<lparr>duration = 1, samples = []\<rparr>
   \<and> handleServerMessage_resume (+) example_decode 0 failed_pending_session =
       (drop_activation 0 failed_pending_session, [ConsoleError ''Error decoding audio''])
   \<and> snd (run_schedule (+) example_decode [Settle 0, Settle 0] failed_pending_session) =
       [ConsoleError ''Error decoding audio'',
        SourceStart \<lparr>node_id = 1, buffer = \<lparr>duration = 1, samples = []\<rparr>, gain_value = 12 / 10\<rparr> 2]
   \<and> start_times (snd (run_schedule (+) example_decode [Settle 0, Settle 0]
        failed_pending_session)) = [nextStartTime failed_pending_session]"
proof -
  let ?m = "audio_message ''X'' False"
  have a: "base64Audio ?m = Some ''X''"
    by (simp add: example_defs)
  have b: "''X'' \<noteq> []" by simp
  have c: "example_decode ''X'' = Inl DecodeError"
    by (simp add: example_defs)
  have ctx: "outputAudioContext streaming_session \<noteq> None"
    by (simp add: streaming_session_def new_session_def)
  have p: "pending streaming_session = []"
    by (simp add: streaming_session_def new_session_def)
  have d: "\<forall>ev \<in> set failing_then_two. 1 / 2 \<le> fst ev"
    by (simp add: failing_then_two_def)
  have i: "\<not> is_interrupted ?m"
    by (simp add: example_defs)
  have ref: "turn (+) example_decode (1 / 2) (without_audio ?m) streaming_session =
      (streaming_session, [])"
    by (simp add: turn_def handler_defs without_audio_def example_defs)
  have run: "start_times (snd (run_schedule (+) example_decode (in_turn failing_then_two)
      streaming_session)) = [1, 2]"
    by (simp add: failing_then_two_def handler_defs example_defs)
  have fl: "List.map_filter (\<lambda>ev. decodes_to example_decode (snd ev)) failing_then_two =
      [\<lparr>duration = 1, samples = []\<rparr>, \<lparr>duration = 1 / 2, samples = []\<rparr>]"
    by (simp add: failing_then_two_def decodes_to_def example_defs List.map_filter_simps)
  have k: "0 < length (pending failed_pending_session)"
    by (simp add: failed_pending_session_def)
  have a0: "pending failed_pending_session ! 0 = \<lparr>act_audio = ''X'', act_message = ?m\<rparr>"
    by (simp add: failed_pending_session_def)
  have ctx2: "outputAudioContext failed_pending_session \<noteq> None"
    by (simp add: failed_pending_session_def example_defs)
  have j: "0 < length (pending (drop_activation 0 failed_pending_session))"
    by (simp add: failed_pending_session_def)
  have dj: "example_decode (act_audio (pending (drop_activation 0 failed_pending_session) ! 0)) =
      Inr \<lparr>duration = 1, samples = []\<rparr>"
    by (simp add: failed_pending_session_def example_defs)
  have both: "snd (run_schedule (+) example_decode [Settle 0, Settle 0] failed_pending_session) =
      [ConsoleError ''Error decoding audio'',
       SourceStart \<lparr>node_id = 1, buffer = \<lparr>duration = 1, samples = []\<rparr>, gain_value = 12 / 10\<rparr> 2]"
    by (simp add: failed_pending_session_def handler_defs example_defs)
  note one = decode_failure_dropped [where dec = example_decode and add = "(+)", OF a b c,
      where s = streaming_session and t = "1 / 2" and evs = failing_then_two]
  note two = decode_failure_dropped [where dec = example_decode and add = "(+)", OF a b c,
      where s = failed_pending_session and k = 0 and j = 0
        and buf = "\<lparr>duration = 1, samples = []\<rparr>"]
  have f1: "snd (handleServerMessage (1 / 2) ?m streaming_session) = []"
    using one ctx by simp
  have f2: "turn (+) example_decode (1 / 2) ?m streaming_session =
      (raise_cursor (1 / 2) streaming_session, [ConsoleError ''Error decoding audio''])"
    using one ctx p by (simp add: interruption_off [OF i])
  have f3: "map buffer (started (snd (run_schedule (+) example_decode (in_turn failing_then_two)
        (fst (turn (+) example_decode (1 / 2) ?m streaming_session))))) =
       [\<lparr>duration = 1, samples = []\<rparr>, \<lparr>duration = 1 / 2, samples = []\<rparr>]"
  proof -
    have "map buffer (started (snd (run_schedule (+) example_decode (in_turn failing_then_two)
        (fst (turn (+) example_decode (1 / 2) ?m streaming_session))))) =
        List.map_filter (\<lambda>ev. decodes_to example_decode (snd ev)) failing_then_two"
      using one ctx p by blast
    then show ?thesis by (simp only: fl)
  qed
  have f4: "snd (run_schedule (+) example_decode (in_turn failing_then_two)
        (fst (turn (+) example_decode (1 / 2) ?m streaming_session))) =
      snd (run_schedule (+) example_decode (in_turn failing_then_two)
        (fst (turn (+) example_decode (1 / 2) (without_audio ?m) streaming_session)))"
    using one p d by blast
  have f5: "handleServerMessage_resume (+) example_decode 0 failed_pending_session =
       (drop_activation 0 failed_pending_session, [ConsoleError ''Error decoding audio''])"
    using two k a0 i by blast
  have f6: "start_times (snd (run_schedule (+) example_decode [Settle 0, Settle 0]
        failed_pending_session)) = [nextStartTime failed_pending_session]"
    using two k a0 i ctx2 j dj by blast
  show ?thesis
    using a c ctx p d f1 f2 f3 f4 f5 f6 k a0 i ctx2 j dj both run
    by (simp add: list_all_iff ref)
qed

text \<open>
  With overlapping calls the valid chunks that come after a failed one are all started,
  but the later of them first: the effects in order, and the buffers in the order of
  their arrival.
\<close>

theorem valid_chunks_reordered_after_failure:
  "snd (run_schedule (+) example_decode failure_overlapped streaming_session) =
     [ConsoleError ''Error decoding audio'',
      SourceStart \<lparr>node_id = 0, buffer = \<lparr>duration = 1 / 2, samples = []\<rparr>, gain_value = 12 / 10\<rparr> 0,
      SourceStart \<lparr>node_id = 1, buffer = \<lparr>duration = 1, samples = []\<rparr>, gain_value = 12 / 10\<rparr>
        (1 / 2)]
   \<and> List.map_filter (\<lambda>x. case x of Arrive t m \<Rightarrow> decodes_to example_decode m | Settle k \<Rightarrow> None)
        failure_overlapped =
     [\<lparr>duration = 1, samples = []\<rparr>, \<lparr>duration = 1 / 2, samples = []\<rparr>]"
  by (simp add: failure_overlapped_def handler_defs example_defs decodes_to_def
      List.map_filter_simps)

section \<open>Playback gain\<close>

lemma step_gain:
  assumes "src \<in> set (started (snd (take_step add dec x s)))"
  shows "gain_value src = 12 / 10"
proof (cases x)
  case (Arrive t m)
  have "started (snd (handleServerMessage t m s)) = []"
    by (simp add: handleServerMessage_def split: option.splits list.splits)
  then show ?thesis using assms Arrive by simp
next
  case (Settle k)
  show ?thesis
  proof (cases "k < length (pending s)")
    case False
    then show ?thesis using assms Settle by (simp add: resume_absent)
  next
    case True
    have "src \<in> set (started (snd (handle_audio_output add dec (pending s ! k)
        (drop_activation k s))))"
      using assms Settle by (simp add: resume_present [OF True] started_append)
    then show ?thesis
      by (auto simp: handle_audio_output_def Let_def split: sum.splits option.splits)
  qed
qed

lemma run_gain:
  "src \<in> set (started (snd (run_schedule add dec xs s))) \<Longrightarrow> gain_value src = 12 / 10"
proof (induction xs arbitrary: s)
  case Nil
  then show ?case by simp
next
  case (Cons x xs)
  then have "src \<in> set (started (snd (take_step add dec x s)))
      \<or> src \<in> set (started (snd (run_schedule add dec xs (fst (take_step add dec x s)))))"
    by (simp add: split_beta started_append)
  then show ?case using step_gain Cons.IH by blast
qed

text \<open>
  Claim C9. Every chunk that decodes is started as one source whose gain node has the
  value 1.2, not 1: what reaches the destination is every decoded sample times 1.2.
  This holds for the message whose decode settles at once, for a suspended call
  whenever its decode settles, and for every source started in any interleaving.
\<close>

theorem playback_gain:
  assumes "outputAudioContext s \<noteq> None"
      and "base64Audio m = Some b" and "b \<noteq> []" and "dec b = Inr (buf :: audio_buffer)"
  shows "started (snd (run_schedule add dec [Arrive t m, Settle (length (pending s))] s)) =
           [\<lparr>node_id = next_node s, buffer = buf, gain_value = 12 / 10\<rparr>]
       \<and> (\<forall>src \<in> set (started (snd (run_schedule add dec
              [Arrive t m, Settle (length (pending s))] s))).
            gain_value src = 12 / 10 \<and> gain_value src \<noteq> 1
            \<and> played_samples src = map (\<lambda>x. 12 / 10 * x) (samples buf))
       \<and> (k < length (pending s) \<and> act_audio (pending s ! k) = b \<longrightarrow>
            started (snd (handleServerMessage_resume add dec k s)) =
              [\<lparr>node_id = next_node s, buffer = buf, gain_value = 12 / 10\<rparr>])
       \<and> (\<forall>src \<in> set (started (snd (run_schedule add dec xs s))).
            gain_value src = 12 / 10 \<and> gain_value src \<noteq> 1
            \<and> played_samples src = map (\<lambda>x. 12 / 10 * x) (samples (buffer src)))"
proof -
  from assms(1) obtain ctx where ctx: "outputAudioContext s = Some ctx" by auto
  let ?a = "\<lparr>act_audio = b, act_message = m\<rparr>"
  let ?s1 = "(raise_cursor t s)\<lparr>pending := pending s @ [?a]\<rparr>"
  have call: "handleServerMessage t m s = (?s1, [])"
    using call_suspended [OF ctx assms(2,3)] .
  have k1: "length (pending s) < length (pending ?s1)" by simp
  have d1: "dec (act_audio (pending ?s1 ! length (pending s))) = Inr buf"
    using assms(4) by simp
  have c1: "outputAudioContext ?s1 = Some ctx" using ctx by simp
  have one: "started (snd (run_schedule add dec [Arrive t m, Settle (length (pending s))] s)) =
           [\<lparr>node_id = next_node s, buffer = buf, gain_value = 12 / 10\<rparr>]"
    using scheduled_settles [where dec = dec, OF k1 d1 c1, of add]
    by (simp add: call split_beta)
  have two: "started (snd (handleServerMessage_resume add dec k s)) =
              [\<lparr>node_id = next_node s, buffer = buf, gain_value = 12 / 10\<rparr>]"
    if "k < length (pending s) \<and> act_audio (pending s ! k) = b"
  proof -
    from that have k: "k < length (pending s)" and d: "dec (act_audio (pending s ! k)) = Inr buf"
      using assms(4) by simp_all
    show ?thesis
      by (simp add: scheduled_settles [where dec = dec, OF k d ctx])
  qed
  have three: "\<forall>src \<in> set (started (snd (run_schedule add dec xs s))).
            gain_value src = 12 / 10 \<and> gain_value src \<noteq> 1
            \<and> played_samples src = map (\<lambda>x. 12 / 10 * x) (samples (buffer src))"
  proof
    fix src assume "src \<in> set (started (snd (run_schedule add dec xs s)))"
    then have g: "gain_value src = 12 / 10" by (rule run_gain)
    show "gain_value src = 12 / 10 \<and> gain_value src \<noteq> 1
        \<and> played_samples src = map (\<lambda>x. 12 / 10 * x) (samples (buffer src))"
      by (simp add: g played_samples_def)
  qed
  show ?thesis
    using one two three by (simp add: played_samples_def)
qed

text \<open>
  A chunk of one second arrives while another is playing; three chunks whose calls
  overlap; and a chunk that settles behind a failed one. Each is started with gain 1.2.
\<close>

theorem playback_gain_witness:
  "outputAudioContext playing_session \<noteq> None
   \<and> base64Audio (audio_message ''A'' False) = Some ''A'' \<and> ''A'' \<noteq> []
   \<and> example_decode ''A'' = Inr \<lparr>duration = 1, samples = []\<rparr>
   \<and> started (snd (run_schedule (+) example_decode
        [Arrive 0 (audio_message ''A'' False), Settle (length (pending playing_session))]
        playing_session)) =
        [\<lparr>node_id = 1, buffer = \<lparr>duration = 1, samples = []\<rparr>, gain_value = 12 / 10\<rparr>]
   \<and> list_all (\<lambda>src. gain_value src = 12 / 10 \<and> gain_value src \<noteq> 1)
        (started (snd (run_schedule (+) example_decode overlapped_chunks playing_session)))
   \<and> length (started (snd (run_schedule (+) example_decode overlapped_chunks playing_session))) = 3
   \<and> 1 < length (pending failed_pending_session)
   \<and> act_audio (pending failed_pending_session ! 1) = ''A''
   \<and> outputAudioContext failed_pending_session \<noteq> None
   \<and> started (snd (handleServerMessage_resume (+) example_decode 1 failed_pending_session)) =
        [\<lparr>node_id = 1, buffer = \<lparr>duration = 1, samples = []\<rparr>, gain_value = 12 / 10\<rparr>]"
proof -
  have ctx: "outputAudioContext playing_session \<noteq> None"
    by (simp add: example_defs)
  have a: "base64Audio (audio_message ''A'' False) = Some ''A''"
    by (simp add: example_defs)
  have b: "''A'' \<noteq> []" by simp
  have c: "example_decode ''A'' = Inr \<lparr>duration = 1, samples = []\<rparr>"
    by (simp add: example_defs)
  have n: "next_node playing_session = 1"
    by (simp add: example_defs)
  have l: "length (started (snd (run_schedule (+) example_decode overlapped_chunks
      playing_session))) = 3"
    by (simp add: overlapped_chunks_def handler_defs example_defs)
  have ctx2: "outputAudioContext failed_pending_session \<noteq> None"
    by (simp add: failed_pending_session_def example_defs)
  have k: "1 < length (pending failed_pending_session)"
    by (simp add: failed_pending_session_def)
  have ak: "act_audio (pending failed_pending_session ! 1) = ''A''"
    by (simp add: failed_pending_session_def)
  have n2: "next_node failed_pending_session = 1"
    by (simp add: failed_pending_session_def example_defs)
  note one = playback_gain [where dec = example_decode and add = "(+)", OF ctx a b c,
      where t = 0 and xs = overlapped_chunks]
  note two = playback_gain [where dec = example_decode and add = "(+)", OF ctx2 a b c,
      where k = 1]
  have f1: "started (snd (run_schedule (+) example_decode
        [Arrive 0 (audio_message ''A'' False), Settle (length (pending playing_session))]
        playing_session)) =
        [\<lparr>node_id = 1, buffer = \<lparr>duration = 1, samples = []\<rparr>, gain_value = 12 / 10\<rparr>]"
    using one n by simp
  have f2: "\<forall>src \<in> set (started (snd (run_schedule (+) example_decode overlapped_chunks
      playing_session))). gain_value src = 12 / 10 \<and> gain_value src \<noteq> 1"
    using one by blast
  have f3: "started (snd (handleServerMessage_resume (+) example_decode 1
      failed_pending_session)) =
        [\<lparr>node_id = 1, buffer = \<lparr>duration = 1, samples = []\<rparr>, gain_value = 12 / 10\<rparr>]"
    using two k ak n2 by simp
  show ?thesis
    using ctx a c f1 f2 f3 l k ak ctx2 by (simp add: list_all_iff)
qed

section \<open>Only the first part is read\<close>





end
